theory Spec2Isabelle
  imports Complex_Main
begin

text \<open>
  A shallow embedding of the test harness of the WebGPU conformance test suite: the
  expectation matching, the lifecycle of a subcase and the run of a case
  (\<open>test_group.ts\<close>), the log messages (\<open>log_message.js\<close>), the registration and
  validation of tests (\<open>test_group.ts\<close>) and the content checks
  (\<open>check_contents.js\<close>). Exceptions are values: a function that can throw returns
  \<open>Exn + 'a\<close>, and a method that mutates its object returns the object as it leaves
  it. Definitions come first, results after them.
\<close>

section \<open>Exceptions\<close>

text \<open>
  The harness distinguishes three classes of thrown values: \<open>SkipTestCase\<close>,
  \<open>UnexpectedPassError\<close> (both imported from \<open>fixture.js\<close>) and every other
  \<open>Error\<close> (what \<open>assert\<close> and \<open>unreachable\<close> throw, operational failures).
  An exception carries its message and its optional stack, the two fields that
  \<open>runTest\<close> overwrites and that \<open>LogMessageWithStack\<close> reads. What the engine
  captures as the stack of a new exception is not modelled: \<open>mkExn\<close> leaves it
  undefined.
\<close>

datatype ExnClass = SkipTestCase | UnexpectedPassError | Error

record Exn =
  exnClass :: ExnClass
  message :: string
  stack :: "string option"

definition mkExn :: "ExnClass \<Rightarrow> string \<Rightarrow> Exn" where
  "mkExn c m = \<lparr>exnClass = c, message = m, stack = None\<rparr>"

section \<open>Expectation matching (test_group.ts, getExpectedStatus)\<close>

datatype Ordering = Unordered | StrictSuperset | Equal | StrictSubset

datatype Expectation = Pass | Skip | Fail

record 'q TestQueryWithExpectation =
  query :: 'q
  expectation :: Expectation

text \<open>
  \<open>compareQueries\<close> lives in \<open>query/compare.js\<close>, which is not among the sources;
  \<open>getExpectedStatus\<close> takes it as the parameter \<open>cmp\<close>. The loop variable
  \<open>didSeeFail\<close> is the accumulator. A declaration whose expectation is neither
  \<open>'skip'\<close> nor \<open>'fail'\<close> reaches \<open>unreachable()\<close>, which throws.
\<close>

fun getExpectedStatus_loop ::
  "('q \<Rightarrow> 'q \<Rightarrow> Ordering) \<Rightarrow> 'q \<Rightarrow> 'q TestQueryWithExpectation list \<Rightarrow> bool
    \<Rightarrow> Exn + Expectation" where
  "getExpectedStatus_loop cmp self [] didSeeFail = Inr (if didSeeFail then Fail else Pass)"
| "getExpectedStatus_loop cmp self (expn # exps) didSeeFail =
     (let ordering = cmp (query expn) self in
      if ordering = Unordered \<or> ordering = StrictSubset
      then getExpectedStatus_loop cmp self exps didSeeFail
      else (case expectation expn of
              Skip \<Rightarrow> Inr Skip
            | Fail \<Rightarrow> getExpectedStatus_loop cmp self exps True
            | Pass \<Rightarrow> Inl (mkExn Error ''unreachable'')))"

definition getExpectedStatus ::
  "('q \<Rightarrow> 'q \<Rightarrow> Ordering) \<Rightarrow> 'q TestQueryWithExpectation list \<Rightarrow> 'q \<Rightarrow> Exn + Expectation" where
  "getExpectedStatus cmp expectations selfQueryWithSubParams =
     getExpectedStatus_loop cmp selfQueryWithSubParams expectations False"

text \<open>The declarations that the loop does not pass over with \<open>continue\<close>.\<close>

definition applicable ::
  "('q \<Rightarrow> 'q \<Rightarrow> Ordering) \<Rightarrow> 'q \<Rightarrow> 'q TestQueryWithExpectation \<Rightarrow> bool" where
  "applicable cmp self expn \<longleftrightarrow>
     cmp (query expn) self = Equal \<or> cmp (query expn) self = StrictSuperset"

subsection \<open>A concrete query model\<close>

text \<open>
  Modelled from the spec: \<open>compareQueries\<close> and the query classes
  (\<open>query/compare.js\<close>, \<open>query/query.js\<close>) are missing from the sources. A query
  names a suite, file path parts, test path parts and case parameters. Queries are
  compared level by level: suite, then file parts as ordered prefixes (the shorter one is
  a superset only if it is an exact prefix of the longer), then test parts in the same
  way, then the case parameters by containment of their key-value pairs in both
  directions.
\<close>

record 'p TestQuery =
  suite :: string
  filePathParts :: "string list"
  testPathParts :: "string list"
  params :: 'p

type_synonym TestParams = "(string \<times> string) list"

definition comparePaths :: "string list \<Rightarrow> string list \<Rightarrow> Ordering" where
  "comparePaths a b =
     (if a = b then Equal
      else if length a < length b \<and> take (length a) b = a then StrictSuperset
      else if length b < length a \<and> take (length b) a = b then StrictSubset
      else Unordered)"

definition compareParams :: "TestParams \<Rightarrow> TestParams \<Rightarrow> Ordering" where
  "compareParams a b =
     (if set a = set b then Equal
      else if set a \<subseteq> set b then StrictSuperset
      else if set b \<subseteq> set a then StrictSubset
      else Unordered)"

definition compareQueries_spec :: "TestParams TestQuery \<Rightarrow> TestParams TestQuery \<Rightarrow> Ordering" where
  "compareQueries_spec a b =
     (if suite a \<noteq> suite b then Unordered
      else (case comparePaths (filePathParts a) (filePathParts b) of
              Equal \<Rightarrow>
                (case comparePaths (testPathParts a) (testPathParts b) of
                   Equal \<Rightarrow> compareParams (params a) (params b)
                 | ord \<Rightarrow> ord)
            | ord \<Rightarrow> ord))"

section \<open>Log messages (log_message.js)\<close>

text \<open>
  How JavaScript prints a non-negative integer in a radix from 2 to 16: the template
  literal in \<open>toJSON\<close> uses radix 10, \<open>intToPaddedHex\<close> radix 16.
\<close>

definition digitChar :: "nat \<Rightarrow> char" where
  "digitChar d = ''0123456789abcdef'' ! d"

fun toStringRadix :: "nat \<Rightarrow> nat \<Rightarrow> string" where
  "toStringRadix b n =
     (if b < 2 \<or> n < b then [digitChar n]
      else toStringRadix b (n div b) @ [digitChar (n mod b)])"

declare toStringRadix.simps [simp del]

definition newline :: string where
  "newline = [CHR 0x0A]"

text \<open>
  \<open>class LogMessageWithStack extends Error\<close>: the fields of an error, plus \<open>name\<close>,
  \<open>stackHiddenMessage\<close> (initially undefined) and \<open>timesSeen\<close> (initially 1).
\<close>

record LogMessageWithStack = Exn +
  name :: string
  stackHiddenMessage :: "string option"
  timesSeen :: nat

definition newLogMessageWithStack :: "string \<Rightarrow> Exn \<Rightarrow> LogMessageWithStack" where
  "newLogMessageWithStack nm ex =
     \<lparr>exnClass = Error, message = message ex, stack = stack ex,
      name = nm, stackHiddenMessage = None, timesSeen = 1\<rparr>"

definition setStackHidden :: "string \<Rightarrow> LogMessageWithStack \<Rightarrow> LogMessageWithStack" where
  "setStackHidden h m = m\<lparr>stackHiddenMessage := Some h\<rparr>"

definition incrementTimesSeen :: "LogMessageWithStack \<Rightarrow> LogMessageWithStack" where
  "incrementTimesSeen m = m\<lparr>timesSeen := timesSeen m + 1\<rparr>"

text \<open>A string, or an optional string, is truthy when it is defined and not empty.\<close>

definition truthy :: "string option \<Rightarrow> bool" where
  "truthy s = (case s of None \<Rightarrow> False | Some t \<Rightarrow> t \<noteq> [])"

text \<open>
  \<open>extractImportantStackTrace\<close> is imported from \<open>stack.js\<close>, which is not among the
  sources: \<open>toJSON\<close> takes it as a parameter. The four statements of \<open>toJSON\<close> each
  append to \<open>m\<close>.
\<close>

definition toJSON :: "(LogMessageWithStack \<Rightarrow> string) \<Rightarrow> LogMessageWithStack \<Rightarrow> string" where
  "toJSON extractImportantStackTrace this =
     (let m = name this;
          m = (if message this \<noteq> [] then m @ '': '' @ message this else m);
          m = (if stackHiddenMessage this = None \<and> truthy (stack this)
               then m @ newline @ extractImportantStackTrace this
               else if truthy (stackHiddenMessage this)
               then m @ newline @ ''  ('' @ the (stackHiddenMessage this) @ '')''
               else m);
          m = (if timesSeen this > 1
               then m @ newline @ ''  (duplicated '' @ toStringRadix 10 (timesSeen this)
                      @ '' times (possibly non-consecutively); use ?debug=1 to show all)''
               else m)
      in m)"

section \<open>The recorder\<close>

text \<open>
  Modelled from the spec: \<open>TestCaseRecorder\<close> (\<open>logging/test_case_recorder.js\<close>) is
  missing from the sources. The spec gives it a log of messages keyed by a dedup
  signature, a current-subcase state and an overall status. \<open>start\<close> resets the
  aggregate status. \<open>beginSubCase\<close> and \<open>endSubCase\<close> bracket one subcase;
  \<open>endSubCase\<close> raises the unexpected-pass condition when the subcase was expected to
  fail and recorded no failure, and otherwise lets the subcase's pass or fail propagate.
  Logging a message whose signature (name, message, stack; the spec does not say how they
  are normalised, so they are compared as they are) equals that of a recorded message
  increments that message's counter instead of appending. A thrown \<open>SkipTestCase\<close> is a
  skip, not a failure. \<open>finish\<close> reduces: any failure gives \<open>'fail'\<close>, otherwise a
  recorded skip gives \<open>'skip'\<close>, otherwise \<open>'pass'\<close>; warnings only attach text
  (the status \<open>'warn'\<close> belongs to the result record of the output interface; the
  reduction as the spec words it never yields it).
\<close>

datatype LogSeverity = SeverityInfo | SeveritySkip | SeverityWarn | SeverityFail

datatype Status = StatusPass | StatusFail | StatusSkip | StatusWarn

record TestCaseRecorder =
  logs :: "LogMessageWithStack list"
  inSubCase :: bool
  subCaseFailed :: bool
  caseFailed :: bool
  caseSkipped :: bool
  resultStatus :: "Status option"

definition newTestCaseRecorder :: TestCaseRecorder where
  "newTestCaseRecorder =
     \<lparr>logs = [], inSubCase = False, subCaseFailed = False, caseFailed = False,
      caseSkipped = False, resultStatus = None\<rparr>"

definition sameSignature :: "LogMessageWithStack \<Rightarrow> LogMessageWithStack \<Rightarrow> bool" where
  "sameSignature a b \<longleftrightarrow> name a = name b \<and> message a = message b \<and> stack a = stack b"

fun pushDeduplicated ::
  "LogMessageWithStack \<Rightarrow> LogMessageWithStack list \<Rightarrow> LogMessageWithStack list" where
  "pushDeduplicated m [] = [m]"
| "pushDeduplicated m (l # ls) =
     (if sameSignature l m then incrementTimesSeen l # ls else l # pushDeduplicated m ls)"

definition logImpl :: "LogSeverity \<Rightarrow> string \<Rightarrow> Exn \<Rightarrow> TestCaseRecorder \<Rightarrow> TestCaseRecorder" where
  "logImpl level nm ex r =
     (let logMessage = newLogMessageWithStack nm ex;
          r = (case level of
                 SeverityFail \<Rightarrow>
                   if inSubCase r then r\<lparr>subCaseFailed := True\<rparr> else r\<lparr>caseFailed := True\<rparr>
               | SeveritySkip \<Rightarrow> r\<lparr>caseSkipped := True\<rparr>
               | _ \<Rightarrow> r)
      in r\<lparr>logs := pushDeduplicated logMessage (logs r)\<rparr>)"

text \<open>
  Modelled from the spec: the methods of \<open>TestCaseRecorder\<close> that \<open>test_group.ts\<close>
  calls, in the words of the paragraph above. A failure logged inside a subcase is the
  subcase's until \<open>endSubCase\<close> folds it into the case; one logged outside is the
  case's at once.
\<close>

definition start :: "TestCaseRecorder \<Rightarrow> TestCaseRecorder" where
  "start r = r\<lparr>inSubCase := False, subCaseFailed := False, caseFailed := False,
               caseSkipped := False\<rparr>"

definition finish :: "TestCaseRecorder \<Rightarrow> TestCaseRecorder" where
  "finish r =
     r\<lparr>resultStatus :=
         Some (if caseFailed r then StatusFail
               else if caseSkipped r then StatusSkip
               else StatusPass)\<rparr>"

definition beginSubCase :: "TestCaseRecorder \<Rightarrow> TestCaseRecorder" where
  "beginSubCase r = r\<lparr>inSubCase := True, subCaseFailed := False\<rparr>"

definition endSubCase :: "Expectation \<Rightarrow> TestCaseRecorder \<Rightarrow> Exn option \<times> TestCaseRecorder" where
  "endSubCase expectedStatus r =
     (let r' = r\<lparr>inSubCase := False, caseFailed := (caseFailed r \<or> subCaseFailed r)\<rparr>
      in if expectedStatus = Fail \<and> \<not> subCaseFailed r
         then (Some (mkExn UnexpectedPassError []), r')
         else (None, r'))"

definition info :: "Exn \<Rightarrow> TestCaseRecorder \<Rightarrow> TestCaseRecorder" where
  "info ex r = logImpl SeverityInfo ''INFO'' ex r"

definition skipped :: "Exn \<Rightarrow> TestCaseRecorder \<Rightarrow> TestCaseRecorder" where
  "skipped ex r = logImpl SeveritySkip ''SKIP'' ex r"

definition warn :: "Exn \<Rightarrow> TestCaseRecorder \<Rightarrow> TestCaseRecorder" where
  "warn ex r = logImpl SeverityWarn ''WARN'' ex r"

definition threw :: "Exn \<Rightarrow> TestCaseRecorder \<Rightarrow> TestCaseRecorder" where
  "threw ex r =
     (if exnClass ex = SkipTestCase then skipped ex r
      else logImpl SeverityFail ''EXCEPTION'' ex r)"

text \<open>
  Modelled from the spec: \<open>Fixture\<close> (\<open>fixture.js\<close>) is missing from the sources.
  The code of a test holds the recorder and reports through it: information, warnings
  and failures (an expectation that fails is logged and the body goes on, as
  \<open>t.expect\<close> in \<open>buffer.spec.ts\<close>). The skip condition is not logged but raised.
  A failure that the test logs counts as any other failure.
\<close>

datatype FixtureLog = LoggedInfo Exn | LoggedWarning Exn | LoggedFailure Exn

definition expectationFailed :: "Exn \<Rightarrow> TestCaseRecorder \<Rightarrow> TestCaseRecorder" where
  "expectationFailed ex r = logImpl SeverityFail ''EXPECTATION FAILED'' ex r"

definition fixtureLog :: "FixtureLog \<Rightarrow> TestCaseRecorder \<Rightarrow> TestCaseRecorder" where
  "fixtureLog l r =
     (case l of
        LoggedInfo ex \<Rightarrow> info ex r
      | LoggedWarning ex \<Rightarrow> warn ex r
      | LoggedFailure ex \<Rightarrow> expectationFailed ex r)"

section \<open>Running a case (test_group.ts, RunCaseSpecific)\<close>

text \<open>
  \<open>test_group.ts\<close> calls the recorder through eight methods. \<open>runTest\<close> and \<open>run\<close>
  are modelled over any recorder state \<open>'r\<close> with these operations; of the eight only
  \<open>endSubCase\<close> is called where the code expects an exception, so it returns the
  exception it throws, if any. The ninth operation, \<open>rec_log\<close>, is what the recorder
  does when the code of the test logs a message through it.
\<close>

record 'r Recorder =
  rec_start :: "'r \<Rightarrow> 'r"
  rec_finish :: "'r \<Rightarrow> 'r"
  rec_beginSubCase :: "'r \<Rightarrow> 'r"
  rec_endSubCase :: "Expectation \<Rightarrow> 'r \<Rightarrow> Exn option \<times> 'r"
  rec_info :: "Exn \<Rightarrow> 'r \<Rightarrow> 'r"
  rec_skipped :: "Exn \<Rightarrow> 'r \<Rightarrow> 'r"
  rec_warn :: "Exn \<Rightarrow> 'r \<Rightarrow> 'r"
  rec_threw :: "Exn \<Rightarrow> 'r \<Rightarrow> 'r"
  rec_log :: "FixtureLog \<Rightarrow> 'r \<Rightarrow> 'r"

definition TestCaseRecorder_ops :: "TestCaseRecorder Recorder" where
  "TestCaseRecorder_ops =
     \<lparr>rec_start = start, rec_finish = finish, rec_beginSubCase = beginSubCase,
      rec_endSubCase = endSubCase, rec_info = info, rec_skipped = skipped,
      rec_warn = warn, rec_threw = threw, rec_log = fixtureLog\<rparr>"

text \<open>
  The state threaded through a run: the recorder, and the sequence of calls made so far:
  by \<open>test_group.ts\<close> to the recorder and to the fixture, and by the code of the test
  to the recorder (\<open>CallLog\<close>).
\<close>

datatype Call =
    CallStart | CallFinish | CallBeginSubCase | CallEndSubCase Expectation
  | CallInfo Exn | CallSkipped Exn | CallWarn Exn | CallThrew Exn
  | CallConstructor | CallInit | CallFn | CallFinalize
  | CallLog FixtureLog

record 'r RunState =
  recorder :: 'r
  calls :: "Call list"

definition called :: "Call \<Rightarrow> 'r RunState \<Rightarrow> 'r RunState" where
  "called c st = st\<lparr>calls := calls st @ [c]\<rparr>"

definition recCall :: "Call \<Rightarrow> ('r \<Rightarrow> 'r) \<Rightarrow> 'r RunState \<Rightarrow> 'r RunState" where
  "recCall c f st = \<lparr>recorder = f (recorder st), calls = calls st @ [c]\<rparr>"

definition fixtureLogs :: "'r Recorder \<Rightarrow> FixtureLog list \<Rightarrow> 'r RunState \<Rightarrow> 'r RunState" where
  "fixtureLogs R ls st = fold (\<lambda>l. recCall (CallLog l) (rec_log R l)) ls st"

text \<open>
  The fixture class and the test function belong to the test being run, not to the
  harness. The fixture is constructed with the recorder (\<open>new this.fixture(rec, params)\<close>)
  and the test function receives the fixture, so each of the four steps (constructor,
  \<open>init()\<close>, the test function, \<open>finalize()\<close>) can log through the recorder before
  it returns or throws: a step is the list of what it logs and what awaiting it gives, a
  normal return (\<open>None\<close>) or a thrown exception. A fixture class is its constructor,
  which logs and then throws or yields an instance.
\<close>

record Step =
  logged :: "FixtureLog list"
  outcome :: "Exn option"

record FixtureInstance =
  init :: Step
  finalize :: Step

type_synonym 'p FixtureClass = "'p \<Rightarrow> FixtureLog list \<times> (Exn + FixtureInstance)"

type_synonym 'p TestFn = "'p \<Rightarrow> Step"

record 'p RunCaseSpecific =
  rc_params :: 'p
  rc_subcases :: "'p list option"
  rc_fixture :: "'p FixtureClass"
  rc_fn :: "'p TestFn"
  rc_testCreationStack :: Exn

text \<open>
  The inner \<open>try { init; fn } finally { finalize }\<close> of \<open>runTest\<close>. The result is
  the exception that leaves the statement: the one of \<open>finalize\<close> if it throws,
  otherwise the pending one of \<open>init\<close> or \<open>fn\<close>.
\<close>

definition runTest_lifecycle ::
  "'r Recorder \<Rightarrow> FixtureInstance \<Rightarrow> Step \<Rightarrow> 'r RunState \<Rightarrow> Exn option \<times> 'r RunState" where
  "runTest_lifecycle R inst fnStep st =
     (let st = fixtureLogs R (logged (init inst)) (called CallInit st);
          (pending, st) =
             (case outcome (init inst) of
                Some ex \<Rightarrow> (Some ex, st)
              | None \<Rightarrow> (outcome fnStep, fixtureLogs R (logged fnStep) (called CallFn st)));
          st = fixtureLogs R (logged (finalize inst)) (called CallFinalize st)
      in case outcome (finalize inst) of
           Some ex \<Rightarrow> (Some ex, st)
         | None \<Rightarrow> (pending, st))"

text \<open>The body of the outer \<open>try\<close>.\<close>

definition runTest_try ::
  "'r Recorder \<Rightarrow> 'p RunCaseSpecific \<Rightarrow> 'p \<Rightarrow> Expectation \<Rightarrow> 'r RunState
    \<Rightarrow> Exn option \<times> 'r RunState" where
  "runTest_try R this ps expectedStatus st =
     (let st = recCall CallBeginSubCase (rec_beginSubCase R) st
      in if expectedStatus = Skip
         then (Some (mkExn SkipTestCase ''Skipped by expectations''), st)
         else (let st = fixtureLogs R (fst (rc_fixture this ps)) (called CallConstructor st)
               in case snd (rc_fixture this ps) of
                    Inl ex \<Rightarrow> (Some ex, st)
                  | Inr inst \<Rightarrow> runTest_lifecycle R inst (rc_fn this ps) st))"

text \<open>
  The \<open>catch\<close> clause rethrows a \<open>SkipTestCase\<close> when \<open>throwSkip\<close> is set and hands
  every other exception to \<open>rec.threw\<close>. The \<open>finally\<close> clause calls \<open>endSubCase\<close>;
  an \<open>UnexpectedPassError\<close> from it is given a new message and the test's creation
  stack and handed to \<open>rec.warn\<close>; any other exception fails the \<open>assert\<close>, whose
  error replaces whatever was pending.
\<close>

definition runTest_catch ::
  "'r Recorder \<Rightarrow> bool \<Rightarrow> Exn option \<times> 'r RunState \<Rightarrow> Exn option \<times> 'r RunState" where
  "runTest_catch R throwSkip res =
     (case res of
        (None, st) \<Rightarrow> (None, st)
      | (Some ex, st) \<Rightarrow>
          if throwSkip \<and> exnClass ex = SkipTestCase then (Some ex, st)
          else (None, recCall (CallThrew ex) (rec_threw R ex) st))"

definition runTest_finally ::
  "'r Recorder \<Rightarrow> 'p RunCaseSpecific \<Rightarrow> Expectation \<Rightarrow> Exn option \<times> 'r RunState
    \<Rightarrow> Exn option \<times> 'r RunState" where
  "runTest_finally R this expectedStatus res =
     (case res of (pending, st) \<Rightarrow>
        (case rec_endSubCase R expectedStatus (recorder st) of (thrown, r) \<Rightarrow>
           (let st = \<lparr>recorder = r, calls = calls st @ [CallEndSubCase expectedStatus]\<rparr>
            in case thrown of
                 None \<Rightarrow> (pending, st)
               | Some ex \<Rightarrow>
                   if exnClass ex \<noteq> UnexpectedPassError then (Some (mkExn Error []), st)
                   else (let ex = ex\<lparr>message := ''Testcase passed unexpectedly.'',
                                      stack := stack (rc_testCreationStack this)\<rparr>
                         in (pending, recCall (CallWarn ex) (rec_warn R ex) st)))))"

definition runTest ::
  "'r Recorder \<Rightarrow> 'p RunCaseSpecific \<Rightarrow> 'p \<Rightarrow> bool \<Rightarrow> Expectation \<Rightarrow> 'r RunState
    \<Rightarrow> Exn option \<times> 'r RunState" where
  "runTest R this ps throwSkip expectedStatus st =
     runTest_finally R this expectedStatus
       (runTest_catch R throwSkip (runTest_try R this ps expectedStatus st))"

text \<open>
  What \<open>run\<close> imports besides the recorder: \<open>compareQueries\<close>, \<open>mergeParams\<close> and the
  two stringifiers, and the empty parameter object. None of them is among the sources, so
  they are parameters; \<open>mergeParams\<close> and the stringifiers may throw.
\<close>

record 'p Imports =
  compareQueries :: "'p TestQuery \<Rightarrow> 'p TestQuery \<Rightarrow> Ordering"
  mergeParams :: "'p \<Rightarrow> 'p \<Rightarrow> Exn + 'p"
  stringifyPublicParams :: "'p \<Rightarrow> Exn + string"
  stringifyPublicParamsUniquely :: "'p \<Rightarrow> Exn + string"
  emptyParams :: 'p

text \<open>The \<open>try\<close> block inside the loop over the subcases.\<close>

definition run_subcase_try ::
  "'r Recorder \<Rightarrow> 'p Imports \<Rightarrow> 'p RunCaseSpecific \<Rightarrow> 'p TestQuery
    \<Rightarrow> 'p TestQuery TestQueryWithExpectation list \<Rightarrow> 'p \<Rightarrow> 'r RunState
    \<Rightarrow> Exn option \<times> 'r RunState" where
  "run_subcase_try R I this selfQuery expectations subParams st =
     (case mergeParams I (rc_params this) subParams of
        Inl ex \<Rightarrow> (Some ex, st)
      | Inr ps \<Rightarrow>
          (let subcaseQuery =
                 \<lparr>suite = suite selfQuery, filePathParts = filePathParts selfQuery,
                  testPathParts = testPathParts selfQuery, params = ps\<rparr>
           in case getExpectedStatus (compareQueries I) expectations subcaseQuery of
                Inl ex \<Rightarrow> (Some ex, st)
              | Inr expectedStatus \<Rightarrow> runTest R this ps True expectedStatus st))"

text \<open>
  The loop over the subcases, with its counters. The first component is the exception
  with which \<open>run\<close> itself is left (only \<open>stringifyPublicParams\<close>, called outside the
  \<open>try\<close>, can cause that).
\<close>

fun run_subcases ::
  "'r Recorder \<Rightarrow> 'p Imports \<Rightarrow> 'p RunCaseSpecific \<Rightarrow> 'p TestQuery
    \<Rightarrow> 'p TestQuery TestQueryWithExpectation list \<Rightarrow> 'p list \<Rightarrow> nat \<Rightarrow> nat \<Rightarrow> 'r RunState
    \<Rightarrow> Exn option \<times> nat \<times> nat \<times> 'r RunState" where
  "run_subcases R I this selfQuery expectations [] totalCount skipCount st =
     (None, totalCount, skipCount, st)"
| "run_subcases R I this selfQuery expectations (subParams # rest) totalCount skipCount st =
     (case stringifyPublicParams I subParams of
        Inl ex \<Rightarrow> (Some ex, totalCount, skipCount, st)
      | Inr s \<Rightarrow>
          (let ex = mkExn Error (''subcase: '' @ s);
               st = recCall (CallInfo ex) (rec_info R ex) st
           in case run_subcase_try R I this selfQuery expectations subParams st of
                (None, st) \<Rightarrow>
                  run_subcases R I this selfQuery expectations rest (totalCount + 1) skipCount st
              | (Some ex, st) \<Rightarrow>
                  if exnClass ex = SkipTestCase
                  then (let ex = ex\<lparr>message := ''subcase skipped: '' @ message ex\<rparr>;
                            st = recCall (CallInfo ex) (rec_info R ex) st
                        in run_subcases R I this selfQuery expectations rest
                             (totalCount + 1) (skipCount + 1) st)
                  else (let st = recCall (CallThrew ex) (rec_threw R ex) st
                        in run_subcases R I this selfQuery expectations rest
                             (totalCount + 1) skipCount st)))"

definition run ::
  "'r Recorder \<Rightarrow> 'p Imports \<Rightarrow> 'p RunCaseSpecific \<Rightarrow> 'p TestQuery
    \<Rightarrow> 'p TestQuery TestQueryWithExpectation list \<Rightarrow> 'r RunState
    \<Rightarrow> Exn option \<times> 'r RunState" where
  "run R I this selfQuery expectations st =
     (let st = recCall CallStart (rec_start R) st
      in case rc_subcases this of
           Some subcases \<Rightarrow>
             (case run_subcases R I this selfQuery expectations subcases 0 0 st of
                (Some ex, totalCount, skipCount, st) \<Rightarrow> (Some ex, st)
              | (None, totalCount, skipCount, st) \<Rightarrow>
                  (let st = (if skipCount = totalCount
                             then (let ex = mkExn SkipTestCase ''all subcases were skipped''
                                   in recCall (CallSkipped ex) (rec_skipped R ex) st)
                             else st)
                   in (None, recCall CallFinish (rec_finish R) st)))
         | None \<Rightarrow>
             (case getExpectedStatus (compareQueries I) expectations selfQuery of
                Inl ex \<Rightarrow> (Some ex, st)
              | Inr expectedStatus \<Rightarrow>
                  (case runTest R this (rc_params this) False expectedStatus st of
                     (Some ex, st) \<Rightarrow> (Some ex, st)
                   | (None, st) \<Rightarrow> (None, recCall CallFinish (rec_finish R) st))))"

subsection \<open>What one subcase attempt ends with\<close>

text \<open>
  The exception, if any, that leaves the outer \<open>try\<close> block of \<open>runTest\<close>, and what
  the code of the test logs through the recorder inside that block (the logs of the
  steps that run), both as functions of the test alone: they do not depend on the
  recorder. Then the same for one iteration of the loop of \<open>run\<close>: the exception is
  the one of \<open>mergeParams\<close> or of \<open>getExpectedStatus\<close> if they throw, otherwise
  that of \<open>runTest\<close>'s \<open>try\<close> block.
\<close>

definition runTest_outcome :: "'p RunCaseSpecific \<Rightarrow> 'p \<Rightarrow> Expectation \<Rightarrow> Exn option" where
  "runTest_outcome this ps expectedStatus =
     (if expectedStatus = Skip then Some (mkExn SkipTestCase ''Skipped by expectations'')
      else (case snd (rc_fixture this ps) of
              Inl ex \<Rightarrow> Some ex
            | Inr inst \<Rightarrow>
                (case outcome (finalize inst) of
                   Some ex \<Rightarrow> Some ex
                 | None \<Rightarrow> (case outcome (init inst) of
                             Some ex \<Rightarrow> Some ex
                           | None \<Rightarrow> outcome (rc_fn this ps)))))"

definition runTest_logged :: "'p RunCaseSpecific \<Rightarrow> 'p \<Rightarrow> Expectation \<Rightarrow> FixtureLog list" where
  "runTest_logged this ps expectedStatus =
     (if expectedStatus = Skip then []
      else fst (rc_fixture this ps)
         @ (case snd (rc_fixture this ps) of
              Inl ex \<Rightarrow> []
            | Inr inst \<Rightarrow>
                logged (init inst)
                @ (if outcome (init inst) = None then logged (rc_fn this ps) else [])
                @ logged (finalize inst)))"

definition subcaseOutcome ::
  "'p Imports \<Rightarrow> 'p RunCaseSpecific \<Rightarrow> 'p TestQuery
    \<Rightarrow> 'p TestQuery TestQueryWithExpectation list \<Rightarrow> 'p \<Rightarrow> Exn option" where
  "subcaseOutcome I this selfQuery expectations subParams =
     (case mergeParams I (rc_params this) subParams of
        Inl ex \<Rightarrow> Some ex
      | Inr ps \<Rightarrow>
          (case getExpectedStatus (compareQueries I) expectations
                  \<lparr>suite = suite selfQuery, filePathParts = filePathParts selfQuery,
                   testPathParts = testPathParts selfQuery, params = ps\<rparr> of
             Inl ex \<Rightarrow> Some ex
           | Inr expectedStatus \<Rightarrow> runTest_outcome this ps expectedStatus))"

definition subcaseLogged ::
  "'p Imports \<Rightarrow> 'p RunCaseSpecific \<Rightarrow> 'p TestQuery
    \<Rightarrow> 'p TestQuery TestQueryWithExpectation list \<Rightarrow> 'p \<Rightarrow> FixtureLog list" where
  "subcaseLogged I this selfQuery expectations subParams =
     (case mergeParams I (rc_params this) subParams of
        Inl ex \<Rightarrow> []
      | Inr ps \<Rightarrow>
          (case getExpectedStatus (compareQueries I) expectations
                  \<lparr>suite = suite selfQuery, filePathParts = filePathParts selfQuery,
                   testPathParts = testPathParts selfQuery, params = ps\<rparr> of
             Inl ex \<Rightarrow> []
           | Inr expectedStatus \<Rightarrow> runTest_logged this ps expectedStatus))"

definition isSkip :: "Exn option \<Rightarrow> bool" where
  "isSkip out = (case out of None \<Rightarrow> False | Some ex \<Rightarrow> exnClass ex = SkipTestCase)"

definition isFailure :: "Exn option \<Rightarrow> bool" where
  "isFailure out = (case out of None \<Rightarrow> False | Some ex \<Rightarrow> exnClass ex \<noteq> SkipTestCase)"

fun isLoggedFailure :: "FixtureLog \<Rightarrow> bool" where
  "isLoggedFailure (LoggedFailure ex) = True"
| "isLoggedFailure (LoggedInfo ex) = False"
| "isLoggedFailure (LoggedWarning ex) = False"

text \<open>
  The outcome of a subcase attempt, as the recorder comes to know it. The attempt has
  failed when a failure was recorded during it: the test logged one, or the attempt
  ended with an exception other than \<open>SkipTestCase\<close>. It raised the skip condition
  when it ended with a \<open>SkipTestCase\<close> (this is what \<open>run\<close> counts), and it was
  skipped when it did so without a failure recorded. Otherwise it has passed.
\<close>

definition attemptFailed ::
  "'p Imports \<Rightarrow> 'p RunCaseSpecific \<Rightarrow> 'p TestQuery
    \<Rightarrow> 'p TestQuery TestQueryWithExpectation list \<Rightarrow> 'p \<Rightarrow> bool" where
  "attemptFailed I this selfQuery expectations subParams \<longleftrightarrow>
     isFailure (subcaseOutcome I this selfQuery expectations subParams)
     \<or> list_ex isLoggedFailure (subcaseLogged I this selfQuery expectations subParams)"

definition attemptRaisedSkip ::
  "'p Imports \<Rightarrow> 'p RunCaseSpecific \<Rightarrow> 'p TestQuery
    \<Rightarrow> 'p TestQuery TestQueryWithExpectation list \<Rightarrow> 'p \<Rightarrow> bool" where
  "attemptRaisedSkip I this selfQuery expectations subParams \<longleftrightarrow>
     isSkip (subcaseOutcome I this selfQuery expectations subParams)"

definition attemptSkipped ::
  "'p Imports \<Rightarrow> 'p RunCaseSpecific \<Rightarrow> 'p TestQuery
    \<Rightarrow> 'p TestQuery TestQueryWithExpectation list \<Rightarrow> 'p \<Rightarrow> bool" where
  "attemptSkipped I this selfQuery expectations subParams \<longleftrightarrow>
     attemptRaisedSkip I this selfQuery expectations subParams
     \<and> \<not> attemptFailed I this selfQuery expectations subParams"

section \<open>Test groups and test builders (test_group.ts)\<close>

text \<open>
  What \<open>TestGroup\<close> and \<open>TestBuilder\<close> use of the query syntax: the builtin
  \<open>decodeURIComponent\<close> (which throws on a malformed escape sequence), the path
  separator \<open>kPathSeparator\<close> (\<open>query/separators.js\<close>) and the regular expression
  \<open>validQueryPart\<close> (\<open>query/validQueryPart.js\<close>), of which the code uses the
  \<open>test\<close> method and the printed form. The last two files are not among the sources,
  so all of these are parameters.
\<close>

record QuerySyntax =
  decodeURIComponent :: "string \<Rightarrow> Exn + string"
  kPathSeparator :: char
  validQueryPart_test :: "string \<Rightarrow> bool"
  validQueryPart_toString :: string

text \<open>\<open>String.prototype.split\<close> and \<open>Array.prototype.join\<close> for a one-character separator.\<close>

fun split :: "char \<Rightarrow> string \<Rightarrow> string list" where
  "split sep [] = [[]]"
| "split sep (c # cs) =
     (if c = sep then [] # split sep cs
      else (case split sep cs of
              [] \<Rightarrow> [[c]]
            | p # ps \<Rightarrow> (c # p) # ps))"

fun join :: "string \<Rightarrow> string list \<Rightarrow> string" where
  "join sep [] = []"
| "join sep [s] = s"
| "join sep (s # ss) = s @ sep @ join sep ss"

record 'p TestBuilder =
  testPath :: "string list"
  description :: "string option"
  testCreationStack :: Exn
  fixture :: "'p FixtureClass"
  testFn :: "'p TestFn option"
  testCases :: "('p \<times> 'p list option) list option"

definition newTestBuilder :: "string list \<Rightarrow> 'p FixtureClass \<Rightarrow> Exn \<Rightarrow> 'p TestBuilder" where
  "newTestBuilder path fx creationStack =
     \<lparr>testPath = path, description = None, testCreationStack = creationStack,
      fixture = fx, testFn = None, testCases = None\<rparr>"

subsection \<open>TestBuilder.validate\<close>

text \<open>
  The inner loop over \<open>subcases ?? [{}]\<close> and the outer loop over the cases; \<open>seen\<close>
  is the set of unique strings met so far. Each of \<open>mergeParams\<close>,
  \<open>stringifyPublicParams\<close> and \<open>stringifyPublicParamsUniquely\<close> may throw, which
  leaves \<open>validate\<close>.
\<close>

fun validate_subcases ::
  "'p Imports \<Rightarrow> string \<Rightarrow> 'p \<Rightarrow> 'p list \<Rightarrow> string set \<Rightarrow> Exn + string set" where
  "validate_subcases I testPathString caseParams [] seen = Inr seen"
| "validate_subcases I testPathString caseParams (subcaseParams # rest) seen =
     (case mergeParams I caseParams subcaseParams of
        Inl ex \<Rightarrow> Inl ex
      | Inr ps \<Rightarrow>
          (case stringifyPublicParams I ps of
             Inl ex \<Rightarrow> Inl ex
           | Inr testcaseString \<Rightarrow>
               (case stringifyPublicParamsUniquely I ps of
                  Inl ex \<Rightarrow> Inl ex
                | Inr testcaseStringUnique \<Rightarrow>
                    if testcaseStringUnique \<in> seen
                    then Inl (mkExn Error (''Duplicate public test case params for test ''
                                @ testPathString @ '': '' @ testcaseString))
                    else validate_subcases I testPathString caseParams rest
                           (insert testcaseStringUnique seen))))"

definition subcasesOrUnit :: "'p Imports \<Rightarrow> 'p list option \<Rightarrow> 'p list" where
  "subcasesOrUnit I subcases = (case subcases of None \<Rightarrow> [emptyParams I] | Some subs \<Rightarrow> subs)"

fun validate_cases ::
  "'p Imports \<Rightarrow> string \<Rightarrow> ('p \<times> 'p list option) list \<Rightarrow> string set \<Rightarrow> Exn + string set" where
  "validate_cases I testPathString [] seen = Inr seen"
| "validate_cases I testPathString ((caseParams, subcases) # rest) seen =
     (case validate_subcases I testPathString caseParams (subcasesOrUnit I subcases) seen of
        Inl ex \<Rightarrow> Inl ex
      | Inr seen' \<Rightarrow> validate_cases I testPathString rest seen')"

text \<open>
  \<open>validate\<close> returns the exception it throws, if any, and the builder as it leaves it
  (the method assigns to no field of \<open>this\<close>).
\<close>

definition validate ::
  "QuerySyntax \<Rightarrow> 'p Imports \<Rightarrow> 'p TestBuilder \<Rightarrow> Exn option \<times> 'p TestBuilder" where
  "validate Q I this =
     (let testPathString = join [kPathSeparator Q] (testPath this)
      in if testFn this = None
         then (Some (mkExn Error
                 (''Test is missing .fn(): '' @ testPathString @
                  (if truthy (stack (testCreationStack this))
                   then newline @ ''-> test created at:'' @ newline
                        @ the (stack (testCreationStack this))
                   else []))), this)
         else (case testCases this of
                 None \<Rightarrow> (None, this)
               | Some cases \<Rightarrow>
                   (case validate_cases I testPathString cases {} of
                      Inl ex \<Rightarrow> (Some ex, this)
                    | Inr seen \<Rightarrow> (None, this))))"

text \<open>
  The fully expanded case \<open>\<times>\<close> subcase list in the order of traversal, and what the
  traversal computes for one entry: the unique string of the merged parameters, or the
  exception of a step that throws.
\<close>

definition expandCases :: "'p Imports \<Rightarrow> ('p \<times> 'p list option) list \<Rightarrow> ('p \<times> 'p) list" where
  "expandCases I cases =
     concat (map (\<lambda>(caseParams, subcases).
                    map (\<lambda>subcaseParams. (caseParams, subcaseParams)) (subcasesOrUnit I subcases))
                 cases)"

definition entryUnique :: "'p Imports \<Rightarrow> 'p \<times> 'p \<Rightarrow> Exn + string" where
  "entryUnique I entry =
     (case mergeParams I (fst entry) (snd entry) of
        Inl ex \<Rightarrow> Inl ex
      | Inr ps \<Rightarrow>
          (case stringifyPublicParams I ps of
             Inl ex \<Rightarrow> Inl ex
           | Inr testcaseString \<Rightarrow> stringifyPublicParamsUniquely I ps))"

text \<open>
  The condition under which the traversal of a list of entries, started with the set
  \<open>sn\<close> of strings already seen, goes through: every entry yields a string, no two
  entries yield the same one, and none yields a string of \<open>sn\<close>; and the strings it
  then adds to the set.
\<close>

definition entriesOk :: "'p Imports \<Rightarrow> ('p \<times> 'p) list \<Rightarrow> string set \<Rightarrow> bool" where
  "entriesOk I es sn \<longleftrightarrow>
     (\<forall>e \<in> set es. \<exists>str. entryUnique I e = Inr str)
     \<and> distinct (map (entryUnique I) es)
     \<and> (\<forall>e \<in> set es. \<forall>str. entryUnique I e = Inr str \<longrightarrow> str \<notin> sn)"

definition entryStrings :: "'p Imports \<Rightarrow> ('p \<times> 'p) list \<Rightarrow> string set" where
  "entryStrings I es = {str. \<exists>e \<in> set es. entryUnique I e = Inr str}"

subsection \<open>TestGroup.test\<close>

record 'p TestGroup =
  group_fixture :: "'p FixtureClass"
  seen :: "string set"
  tests :: "'p TestBuilder list"

text \<open>
  \<open>checkName\<close> and \<open>test\<close> return the exception they throw, if any, together with
  the group as they leave it: \<open>checkName\<close> adds the name to \<open>seen\<close> before \<open>test\<close>
  checks the parts of the name.
\<close>

definition checkName :: "QuerySyntax \<Rightarrow> 'p TestGroup \<Rightarrow> string \<Rightarrow> Exn option \<times> 'p TestGroup" where
  "checkName Q this nm =
     (case decodeURIComponent Q nm of
        Inl ex \<Rightarrow> (Some ex, this)
      | Inr decoded \<Rightarrow>
          if nm \<noteq> decoded
          then (Some (mkExn Error (''Not decodeURIComponent-idempotent: '' @ nm @ '' !== ''
                        @ decoded)), this)
          else if nm \<in> seen this
          then (Some (mkExn Error (''Duplicate test name: '' @ nm)), this)
          else (None, this\<lparr>seen := insert nm (seen this)\<rparr>))"

fun checkParts :: "QuerySyntax \<Rightarrow> string list \<Rightarrow> Exn option" where
  "checkParts Q [] = None"
| "checkParts Q (p # ps) =
     (if validQueryPart_test Q p then checkParts Q ps
      else Some (mkExn Error (''Invalid test name part '' @ p @ ''; must match ''
                   @ validQueryPart_toString Q)))"

definition test ::
  "QuerySyntax \<Rightarrow> 'p TestGroup \<Rightarrow> string \<Rightarrow> (Exn + 'p TestBuilder) \<times> 'p TestGroup" where
  "test Q this nm =
     (let creationStack = mkExn Error (''Test created: '' @ nm)
      in case checkName Q this nm of
           (Some ex, this) \<Rightarrow> (Inl ex, this)
         | (None, this) \<Rightarrow>
             (let parts = split (kPathSeparator Q) nm
              in case checkParts Q parts of
                   Some ex \<Rightarrow> (Inl ex, this)
                 | None \<Rightarrow>
                     (let t = newTestBuilder parts (group_fixture this) creationStack
                      in (Inr t, this\<lparr>tests := tests this @ [t]\<rparr>))))"

section \<open>Checking array contents (check_contents.js)\<close>










subsection \<open>generatePrettyTable\<close>














subsection \<open>checkElementsPassPredicate and checkElementsEqual\<close>













section \<open>Concrete inputs\<close>

text \<open>
  Modelled from the spec: \<open>mergeParams\<close> (\<open>params_utils.js\<close>) and the stringifiers
  (\<open>query/stringify_params.js\<close>) are missing from the sources. Parameters are records
  of key-value pairs with scalar values, written here as strings. Merging two records
  fails if they share a key with different values. Scalars render literally; every key
  of these records is public.
\<close>

definition mergeParams_spec :: "TestParams \<Rightarrow> TestParams \<Rightarrow> Exn + TestParams" where
  "mergeParams_spec a b =
     (if list_ex (\<lambda>(k, v). list_ex (\<lambda>(k', v'). k = k' \<and> v \<noteq> v') b) a
      then Inl (mkExn Error ''Duplicate parameter name'')
      else Inr (a @ filter (\<lambda>kv. kv \<notin> set a) b))"

fun stringifyPublicParams_spec :: "TestParams \<Rightarrow> string" where
  "stringifyPublicParams_spec [] = []"
| "stringifyPublicParams_spec [(k, v)] = k @ ''='' @ v"
| "stringifyPublicParams_spec ((k, v) # kvs) = k @ ''='' @ v @ '';'' @ stringifyPublicParams_spec kvs"

definition Imports_spec :: "TestParams Imports" where
  "Imports_spec =
     \<lparr>compareQueries = compareQueries_spec,
      mergeParams = mergeParams_spec,
      stringifyPublicParams = (\<lambda>p. Inr (stringifyPublicParams_spec p)),
      stringifyPublicParamsUniquely = (\<lambda>p. Inr (stringifyPublicParams_spec p)),
      emptyParams = []\<rparr>"

text \<open>
  A test whose behaviour is chosen by the parameter \<open>mode\<close>: the constructor throws for
  \<open>noctor\<close>, \<open>init\<close> skips for \<open>noinit\<close>, the body skips for \<open>skip\<close>, throws
  for \<open>throw\<close>, logs a failed expectation and returns for \<open>mismatch\<close> and logs a
  warning and returns for \<open>slow\<close>, \<open>finalize\<close> throws for \<open>leak\<close>.
\<close>

definition exampleFixture :: "TestParams FixtureClass" where
  "exampleFixture ps =
     ([],
      if map_of ps ''mode'' = Some ''noctor'' then Inl (mkExn Error ''no device'')
      else Inr \<lparr>init = \<lparr>logged = [],
                        outcome = (if map_of ps ''mode'' = Some ''noinit''
                                   then Some (mkExn SkipTestCase ''unsupported'') else None)\<rparr>,
                finalize = \<lparr>logged = [],
                            outcome = (if map_of ps ''mode'' = Some ''leak''
                                       then Some (mkExn Error ''device lost'') else None)\<rparr>\<rparr>)"

definition exampleFn :: "TestParams TestFn" where
  "exampleFn ps =
     (if map_of ps ''mode'' = Some ''skip''
      then \<lparr>logged = [], outcome = Some (mkExn SkipTestCase ''unsupported'')\<rparr>
      else if map_of ps ''mode'' = Some ''throw''
      then \<lparr>logged = [], outcome = Some (mkExn Error ''content mismatch'')\<rparr>
      else if map_of ps ''mode'' = Some ''mismatch''
      then \<lparr>logged = [LoggedFailure (mkExn Error ''expected 0'')], outcome = None\<rparr>
      else if map_of ps ''mode'' = Some ''slow''
      then \<lparr>logged = [LoggedWarning (mkExn Error ''took long'')], outcome = None\<rparr>
      else \<lparr>logged = [], outcome = None\<rparr>)"

definition exampleCase :: "TestParams \<Rightarrow> TestParams list option \<Rightarrow> TestParams RunCaseSpecific" where
  "exampleCase ps subs =
     \<lparr>rc_params = ps, rc_subcases = subs, rc_fixture = exampleFixture, rc_fn = exampleFn,
      rc_testCreationStack = \<lparr>exnClass = Error, message = ''Test created: t'',
                                stack = Some ''at t''\<rparr>\<rparr>"

definition exampleQuery :: "TestParams \<Rightarrow> TestParams TestQuery" where
  "exampleQuery ps =
     \<lparr>suite = ''s'', filePathParts = [''f''], testPathParts = [''t''], params = ps\<rparr>"

definition freshState :: "TestCaseRecorder RunState" where
  "freshState = \<lparr>recorder = newTestCaseRecorder, calls = []\<rparr>"

text \<open>
  A query syntax for the examples: names without a percent sign decode to themselves
  (any other name is rejected by \<open>test\<close> whether it decodes or not), parts are
  separated by commas and consist of letters, digits and underscores.
\<close>

definition exampleSyntax :: QuerySyntax where
  "exampleSyntax =
     \<lparr>decodeURIComponent =
        (\<lambda>s. if CHR ''%'' \<in> set s then Inl (mkExn Error ''URI malformed'') else Inr s),
      kPathSeparator = CHR '','',
      validQueryPart_test =
        (\<lambda>s. s \<noteq> [] \<and> list_all (\<lambda>c. c \<in> set ''abcdefghijklmnopqrstuvwxyzABCDEFGHIJKLMNOPQRSTUVWXYZ0123456789_'') s),
      validQueryPart_toString = ''/^[a-zA-Z0-9_]+$/''\<rparr>"

definition exampleBuilder ::
  "TestParams TestFn option \<Rightarrow> (TestParams \<times> TestParams list option) list option
    \<Rightarrow> TestParams TestBuilder" where
  "exampleBuilder f cases =
     (newTestBuilder [''t''] exampleFixture (mkExn Error ''Test created: t''))
       \<lparr>testFn := f, testCases := cases\<rparr>"

definition exampleGroup :: "TestParams TestGroup" where
  "exampleGroup = \<lparr>group_fixture = exampleFixture, seen = {''a,b''}, tests = []\<rparr>"


section \<open>Expectation matching: results\<close>

lemma getExpectedStatus_loop_filter:
  "getExpectedStatus_loop cmp self (filter (applicable cmp self) exps) d =
   getExpectedStatus_loop cmp self exps d"
proof (induction exps arbitrary: d)
  case Nil
  show ?case by simp
next
  case (Cons e exps)
  show ?case
  proof (cases "applicable cmp self e")
    case True
    then have "cmp (query e) self \<noteq> Unordered" "cmp (query e) self \<noteq> StrictSubset"
      by (auto simp: applicable_def)
    with True Cons show ?thesis
      by (simp add: Let_def split: Expectation.split)
  next
    case False
    then have "cmp (query e) self = Unordered \<or> cmp (query e) self = StrictSubset"
      by (cases "cmp (query e) self") (auto simp: applicable_def)
    with False Cons show ?thesis
      by (simp add: Let_def)
  qed
qed

lemma getExpectedStatus_loop_skip:
  assumes "\<forall>e \<in> set exps. expectation e \<noteq> Pass"
    and "\<exists>e \<in> set exps. applicable cmp self e \<and> expectation e = Skip"
  shows "getExpectedStatus_loop cmp self exps d = Inr Skip"
  using assms
proof (induction exps arbitrary: d)
  case Nil
  then show ?case by simp
next
  case (Cons e exps)
  show ?case
  proof (cases "applicable cmp self e")
    case True
    then have ne: "cmp (query e) self \<noteq> Unordered" "cmp (query e) self \<noteq> StrictSubset"
      by (auto simp: applicable_def)
    show ?thesis
    proof (cases "expectation e")
      case Pass
      with Cons.prems(1) show ?thesis by simp
    next
      case Skip
      with ne show ?thesis by (simp add: Let_def)
    next
      case Fail
      with Cons.prems have "\<exists>e \<in> set exps. applicable cmp self e \<and> expectation e = Skip"
        by auto
      with Cons.IH Cons.prems(1) have "getExpectedStatus_loop cmp self exps True = Inr Skip"
        by simp
      with ne Fail show ?thesis by (simp add: Let_def)
    qed
  next
    case False
    then have un: "cmp (query e) self = Unordered \<or> cmp (query e) self = StrictSubset"
      by (cases "cmp (query e) self") (auto simp: applicable_def)
    from False Cons.prems have "\<exists>e \<in> set exps. applicable cmp self e \<and> expectation e = Skip"
      by auto
    with Cons.IH Cons.prems(1) have "getExpectedStatus_loop cmp self exps d = Inr Skip"
      by simp
    with un show ?thesis by (simp add: Let_def)
  qed
qed

lemma getExpectedStatus_loop_noskip:
  assumes "\<forall>e \<in> set exps. expectation e \<noteq> Pass"
    and "\<not> (\<exists>e \<in> set exps. applicable cmp self e \<and> expectation e = Skip)"
  shows "getExpectedStatus_loop cmp self exps d =
         Inr (if d \<or> (\<exists>e \<in> set exps. applicable cmp self e \<and> expectation e = Fail)
              then Fail else Pass)"
  using assms
proof (induction exps arbitrary: d)
  case Nil
  then show ?case by simp
next
  case (Cons e exps)
  have IH: "getExpectedStatus_loop cmp self exps d' =
         Inr (if d' \<or> (\<exists>e \<in> set exps. applicable cmp self e \<and> expectation e = Fail)
              then Fail else Pass)" for d'
    using Cons.IH Cons.prems by simp
  show ?case
  proof (cases "applicable cmp self e")
    case True
    then have ne: "cmp (query e) self \<noteq> Unordered" "cmp (query e) self \<noteq> StrictSubset"
      by (auto simp: applicable_def)
    from True Cons.prems have "expectation e = Fail"
      by (cases "expectation e") auto
    with ne True IH show ?thesis by (simp add: Let_def)
  next
    case False
    then have un: "cmp (query e) self = Unordered \<or> cmp (query e) self = StrictSubset"
      by (cases "cmp (query e) self") (auto simp: applicable_def)
    with False IH show ?thesis by (auto simp add: Let_def)
  qed
qed

lemma getExpectedStatus_loop_Pass:
  "getExpectedStatus_loop cmp self exps d = Inr Pass \<Longrightarrow>
   \<not> d \<and> (\<forall>e \<in> set exps. \<not> applicable cmp self e)"
proof (induction exps arbitrary: d)
  case Nil
  then show ?case by (simp split: if_splits)
next
  case (Cons e exps)
  show ?case
  proof (cases "applicable cmp self e")
    case True
    then have ne: "cmp (query e) self \<noteq> Unordered" "cmp (query e) self \<noteq> StrictSubset"
      by (auto simp: applicable_def)
    from Cons.prems ne have "expectation e = Fail \<and> getExpectedStatus_loop cmp self exps True = Inr Pass"
      by (cases "expectation e") (simp_all add: Let_def)
    with Cons.IH [of True] show ?thesis by simp
  next
    case False
    then have un: "cmp (query e) self = Unordered \<or> cmp (query e) self = StrictSubset"
      by (cases "cmp (query e) self") (auto simp: applicable_def)
    with Cons.prems have "getExpectedStatus_loop cmp self exps d = Inr Pass"
      by (auto simp add: Let_def)
    with Cons.IH [of d] False show ?thesis by simp
  qed
qed

text \<open>
  C1 (as stated, refuted). A declaration whose query is a strict subset of the case's
  query is not Unordered, yet the loop passes over it: a lone \<open>'skip'\<close> declaration in
  that relation leaves the expected status at \<open>'pass'\<close>.
\<close>

theorem getExpectedStatus_StrictSubset_ignored:
  "compareQueries_spec
     \<lparr>suite = ''s'', filePathParts = [''f''], testPathParts = [''t''],
      params = [(''x'', ''1''), (''y'', ''2'')]\<rparr>
     \<lparr>suite = ''s'', filePathParts = [''f''], testPathParts = [''t''],
      params = [(''x'', ''1'')]\<rparr> = StrictSubset
   \<and> getExpectedStatus compareQueries_spec
     [\<lparr>query = \<lparr>suite = ''s'', filePathParts = [''f''], testPathParts = [''t''],
                params = [(''x'', ''1''), (''y'', ''2'')]\<rparr>,
       expectation = Skip\<rparr>]
     \<lparr>suite = ''s'', filePathParts = [''f''], testPathParts = [''t''],
      params = [(''x'', ''1'')]\<rparr> = Inr Pass"
  by (simp add: getExpectedStatus_def compareQueries_spec_def comparePaths_def compareParams_def)

text \<open>
  C1 (amended). For every comparison function, case query and list of declarations, a
  declaration is applicable exactly when \<open>compareQueries\<close> of its query against the
  case's query is Equal or StrictSuperset: the declarations in any other relation
  (Unordered, StrictSubset) can be deleted without changing the outcome, and every
  declaration that is Equal or StrictSuperset is accumulated, so that the outcome is no
  longer a plain \<open>'pass'\<close>.
\<close>

theorem getExpectedStatus_applicable_iff:
  "getExpectedStatus cmp (filter (applicable cmp self) exps) self =
     getExpectedStatus cmp exps self
   \<and> (\<forall>e \<in> set exps.
        (cmp (query e) self = Equal \<or> cmp (query e) self = StrictSuperset)
        \<longrightarrow> getExpectedStatus cmp exps self \<noteq> Inr Pass)"
proof -
  have "getExpectedStatus cmp exps self \<noteq> Inr Pass"
    if "e \<in> set exps" and "cmp (query e) self = Equal \<or> cmp (query e) self = StrictSuperset" for e
  proof
    assume "getExpectedStatus cmp exps self = Inr Pass"
    then have "\<forall>e \<in> set exps. \<not> applicable cmp self e"
      using getExpectedStatus_loop_Pass [of cmp self exps False]
      by (simp add: getExpectedStatus_def)
    with that show False by (simp add: applicable_def)
  qed
  then show ?thesis
    by (simp add: getExpectedStatus_def getExpectedStatus_loop_filter)
qed

theorem getExpectedStatus_applicable_iff_witness:
  "compareQueries_spec
     \<lparr>suite = ''s'', filePathParts = [''f''], testPathParts = [], params = []\<rparr>
     \<lparr>suite = ''s'', filePathParts = [''f''], testPathParts = [''t''],
      params = [(''x'', ''1'')]\<rparr> = StrictSuperset
   \<and> getExpectedStatus compareQueries_spec
     [\<lparr>query = \<lparr>suite = ''s'', filePathParts = [''f''], testPathParts = [], params = []\<rparr>,
       expectation = Fail\<rparr>]
     \<lparr>suite = ''s'', filePathParts = [''f''], testPathParts = [''t''],
      params = [(''x'', ''1'')]\<rparr> \<noteq> Inr Pass"
  using getExpectedStatus_applicable_iff [of compareQueries_spec
     "\<lparr>suite = ''s'', filePathParts = [''f''], testPathParts = [''t''],
      params = [(''x'', ''1'')]\<rparr>"
     "[\<lparr>query = \<lparr>suite = ''s'', filePathParts = [''f''], testPathParts = [], params = []\<rparr>,
       expectation = Fail\<rparr>]"]
  by (simp add: compareQueries_spec_def comparePaths_def)

text \<open>
  C2. For every case query and every list of \<open>'skip'\<close>/\<open>'fail'\<close> declarations, the
  expected status is \<open>'skip'\<close> if some applicable declaration (one the loop does not
  pass over) says \<open>'skip'\<close>, whatever \<open>'fail'\<close> declarations there are and wherever
  they stand; otherwise it is \<open>'fail'\<close> if some applicable declaration says
  \<open>'fail'\<close>; otherwise it is \<open>'pass'\<close>.
\<close>

theorem getExpectedStatus_precedence:
  assumes "\<forall>e \<in> set exps. expectation e = Skip \<or> expectation e = Fail"
  shows "getExpectedStatus cmp exps self =
     Inr (if \<exists>e \<in> set exps. applicable cmp self e \<and> expectation e = Skip then Skip
          else if \<exists>e \<in> set exps. applicable cmp self e \<and> expectation e = Fail then Fail
          else Pass)"
proof -
  from assms have np: "\<forall>e \<in> set exps. expectation e \<noteq> Pass"
    by auto
  show ?thesis
  proof (cases "\<exists>e \<in> set exps. applicable cmp self e \<and> expectation e = Skip")
    case True
    with np show ?thesis
      using getExpectedStatus_loop_skip [of exps cmp self False]
      by (simp add: getExpectedStatus_def)
  next
    case False
    with np show ?thesis
      using getExpectedStatus_loop_noskip [of exps cmp self False]
      by (simp add: getExpectedStatus_def)
  qed
qed

text \<open>
  The spec's example: a whole-file \<open>'skip'\<close> declaration after a one-case \<open>'fail'\<close>
  declaration; the case matches both and is expected to skip.
\<close>

theorem getExpectedStatus_precedence_witness:
  "getExpectedStatus compareQueries_spec
     [\<lparr>query = \<lparr>suite = ''s'', filePathParts = [''f''], testPathParts = [''t''],
                params = [(''x'', ''1'')]\<rparr>, expectation = Fail\<rparr>,
      \<lparr>query = \<lparr>suite = ''s'', filePathParts = [''f''], testPathParts = [], params = []\<rparr>,
       expectation = Skip\<rparr>]
     \<lparr>suite = ''s'', filePathParts = [''f''], testPathParts = [''t''],
      params = [(''x'', ''1'')]\<rparr> = Inr Skip"
  using getExpectedStatus_precedence [of
     "[\<lparr>query = \<lparr>suite = ''s'', filePathParts = [''f''], testPathParts = [''t''],
                params = [(''x'', ''1'')]\<rparr>, expectation = Fail\<rparr>,
      \<lparr>query = \<lparr>suite = ''s'', filePathParts = [''f''], testPathParts = [], params = []\<rparr>,
       expectation = Skip\<rparr>]" compareQueries_spec
     "\<lparr>suite = ''s'', filePathParts = [''f''], testPathParts = [''t''],
      params = [(''x'', ''1'')]\<rparr>"]
  by (simp add: applicable_def compareQueries_spec_def comparePaths_def compareParams_def)
section \<open>The lifecycle of a subcase: results\<close>

lemma fixtureLogs_calls:
  "calls (fixtureLogs R ls st) = calls st @ map CallLog ls"
proof (induction ls arbitrary: st)
  case Nil
  show ?case by (simp add: fixtureLogs_def)
next
  case (Cons l ls)
  have "fixtureLogs R (l # ls) st = fixtureLogs R ls (recCall (CallLog l) (rec_log R l) st)"
    by (simp add: fixtureLogs_def)
  then show ?case using Cons.IH by (simp add: recCall_def)
qed

lemma fixtureLogs_recorder:
  "recorder (fixtureLogs R ls st) = fold (rec_log R) ls (recorder st)"
proof (induction ls arbitrary: st)
  case Nil
  show ?case by (simp add: fixtureLogs_def)
next
  case (Cons l ls)
  have "fixtureLogs R (l # ls) st = fixtureLogs R ls (recCall (CallLog l) (rec_log R l) st)"
    by (simp add: fixtureLogs_def)
  then show ?case using Cons.IH by (simp add: recCall_def)
qed


lemma runTest_lifecycle_calls:
  "calls (snd (runTest_lifecycle R inst fo st)) =
     calls st @ CallInit # map CallLog (logged (init inst))
       @ (if outcome (init inst) = None then CallFn # map CallLog (logged fo) else [])
       @ CallFinalize # map CallLog (logged (finalize inst))"
  by (simp add: runTest_lifecycle_def called_def Let_def fixtureLogs_calls split: option.splits)

lemma runTest_lifecycle_result:
  "fst (runTest_lifecycle R inst fo st) =
     (case outcome (finalize inst) of Some ex \<Rightarrow> Some ex
      | None \<Rightarrow> (case outcome (init inst) of Some ex \<Rightarrow> Some ex | None \<Rightarrow> outcome fo))"
  by (simp add: runTest_lifecycle_def called_def Let_def split: option.splits)

lemma runTest_catch_calls:
  "calls (snd (runTest_catch R throwSkip (res, st))) =
     calls st @ (case res of None \<Rightarrow> []
                 | Some ex \<Rightarrow> if throwSkip \<and> exnClass ex = SkipTestCase then [] else [CallThrew ex])"
  by (simp add: runTest_catch_def recCall_def split: option.splits)


lemma runTest_finally_calls:
  "\<exists>w. calls (snd (runTest_finally R this e (res, st))) = calls st @ CallEndSubCase e # w
     \<and> (w = [] \<or> (\<exists>ex. w = [CallWarn ex]))"
  by (auto simp add: runTest_finally_def recCall_def Let_def split: option.splits prod.splits)




lemmas example_defs = exampleCase_def exampleFixture_def exampleFn_def exampleQuery_def
  freshState_def Imports_spec_def mkExn_def fixtureLogs_def


section \<open>The recorder and the overall status: results\<close>

lemma logImpl_flags:
  "inSubCase (logImpl lvl nm ex r) = inSubCase r"
  "subCaseFailed (logImpl lvl nm ex r) = (subCaseFailed r \<or> (lvl = SeverityFail \<and> inSubCase r))"
  "caseFailed (logImpl lvl nm ex r) = (caseFailed r \<or> (lvl = SeverityFail \<and> \<not> inSubCase r))"
  "caseSkipped (logImpl lvl nm ex r) = (caseSkipped r \<or> lvl = SeveritySkip)"
  by (auto simp add: logImpl_def Let_def split: LogSeverity.splits)

lemma info_flags:
  "inSubCase (info ex r) = inSubCase r" "subCaseFailed (info ex r) = subCaseFailed r"
  "caseFailed (info ex r) = caseFailed r" "caseSkipped (info ex r) = caseSkipped r"
  by (simp_all add: info_def logImpl_flags)

lemma warn_flags:
  "inSubCase (warn ex r) = inSubCase r" "subCaseFailed (warn ex r) = subCaseFailed r"
  "caseFailed (warn ex r) = caseFailed r" "caseSkipped (warn ex r) = caseSkipped r"
  by (simp_all add: warn_def logImpl_flags)

lemma threw_flags:
  "inSubCase (threw ex r) = inSubCase r"
  "subCaseFailed (threw ex r) = (subCaseFailed r \<or> (exnClass ex \<noteq> SkipTestCase \<and> inSubCase r))"
  "caseFailed (threw ex r) = (caseFailed r \<or> (exnClass ex \<noteq> SkipTestCase \<and> \<not> inSubCase r))"
  "caseSkipped (threw ex r) = (caseSkipped r \<or> exnClass ex = SkipTestCase)"
  by (simp_all add: threw_def skipped_def logImpl_flags)

lemma ops_simps:
  "rec_start TestCaseRecorder_ops = start" "rec_finish TestCaseRecorder_ops = finish"
  "rec_beginSubCase TestCaseRecorder_ops = beginSubCase"
  "rec_endSubCase TestCaseRecorder_ops = endSubCase"
  "rec_info TestCaseRecorder_ops = info" "rec_skipped TestCaseRecorder_ops = skipped"
  "rec_warn TestCaseRecorder_ops = warn" "rec_threw TestCaseRecorder_ops = threw"
  "rec_log TestCaseRecorder_ops = fixtureLog"
  by (simp_all add: TestCaseRecorder_ops_def)

lemma fixtureLog_flags:
  "inSubCase (fixtureLog l r) = inSubCase r"
  "subCaseFailed (fixtureLog l r) = (subCaseFailed r \<or> (isLoggedFailure l \<and> inSubCase r))"
  "caseFailed (fixtureLog l r) = (caseFailed r \<or> (isLoggedFailure l \<and> \<not> inSubCase r))"
  "caseSkipped (fixtureLog l r) = caseSkipped r"
  by (auto simp add: fixtureLog_def expectationFailed_def info_flags warn_flags logImpl_flags
      split: FixtureLog.splits)

lemma fold_fixtureLog_flags:
  "inSubCase (fold fixtureLog ls r) = inSubCase r
   \<and> subCaseFailed (fold fixtureLog ls r)
       = (subCaseFailed r \<or> (list_ex isLoggedFailure ls \<and> inSubCase r))
   \<and> caseFailed (fold fixtureLog ls r)
       = (caseFailed r \<or> (list_ex isLoggedFailure ls \<and> \<not> inSubCase r))
   \<and> caseSkipped (fold fixtureLog ls r) = caseSkipped r"
proof (induction ls arbitrary: r)
  case Nil
  show ?case by simp
next
  case (Cons l ls)
  show ?case
    using Cons.IH [of "fixtureLog l r"] by (auto simp add: fixtureLog_flags)
qed

lemma runTest_try_outcome:
  "fst (runTest_try R this ps es st) = runTest_outcome this ps es"
  by (simp add: runTest_try_def runTest_outcome_def runTest_lifecycle_result Let_def
      split: sum.splits option.splits)

lemma runTest_lifecycle_recorder:
  "recorder (snd (runTest_lifecycle R inst fo st)) =
     fold (rec_log R)
       (logged (init inst) @ (if outcome (init inst) = None then logged fo else [])
          @ logged (finalize inst))
       (recorder st)"
  by (simp add: runTest_lifecycle_def called_def Let_def fixtureLogs_recorder split: option.splits)

lemma runTest_try_recorder:
  "recorder (snd (runTest_try R this ps es st))
     = fold (rec_log R) (runTest_logged this ps es) (rec_beginSubCase R (recorder st))"
  by (simp add: runTest_try_def runTest_logged_def runTest_lifecycle_recorder Let_def
      called_def recCall_def fixtureLogs_recorder split: sum.splits)

lemma runTest_try_calls:
  "calls (snd (runTest_try R this ps es st)) =
     calls st @ CallBeginSubCase #
       (if es = Skip then []
        else CallConstructor # map CallLog (fst (rc_fixture this ps))
          @ (case snd (rc_fixture this ps) of
               Inl ex \<Rightarrow> []
             | Inr inst \<Rightarrow>
                 CallInit # map CallLog (logged (init inst))
                 @ (if outcome (init inst) = None
                    then CallFn # map CallLog (logged (rc_fn this ps)) else [])
                 @ CallFinalize # map CallLog (logged (finalize inst))))"
  by (simp add: runTest_try_def runTest_lifecycle_calls Let_def called_def recCall_def
      fixtureLogs_calls split: sum.splits)

lemma runTest_spec_throwSkip:
  fixes st :: "TestCaseRecorder RunState" and this :: "'p RunCaseSpecific" and ps :: 'p and es
  defines "res \<equiv> runTest TestCaseRecorder_ops this ps True es st"
  shows "fst res = (if isSkip (runTest_outcome this ps es) then runTest_outcome this ps es else None)"
    and "caseFailed (recorder (snd res))
          = (caseFailed (recorder st) \<or> isFailure (runTest_outcome this ps es)
             \<or> list_ex isLoggedFailure (runTest_logged this ps es))"
    and "caseSkipped (recorder (snd res)) = caseSkipped (recorder st)"
    and "inSubCase (recorder (snd res)) = False"
proof -
  obtain st1 where t: "runTest_try TestCaseRecorder_ops this ps es st = (runTest_outcome this ps es, st1)"
    and r1: "recorder st1 = fold fixtureLog (runTest_logged this ps es) (beginSubCase (recorder st))"
    using runTest_try_outcome [of TestCaseRecorder_ops this ps es st]
      runTest_try_recorder [of TestCaseRecorder_ops this ps es st]
    by (cases "runTest_try TestCaseRecorder_ops this ps es st") (simp add: ops_simps)
  have f1: "inSubCase (recorder st1)"
      "subCaseFailed (recorder st1) = list_ex isLoggedFailure (runTest_logged this ps es)"
      "caseFailed (recorder st1) = caseFailed (recorder st)"
      "caseSkipped (recorder st1) = caseSkipped (recorder st)"
    using fold_fixtureLog_flags [of "runTest_logged this ps es" "beginSubCase (recorder st)"]
    by (simp_all add: r1 beginSubCase_def)
  show "fst res = (if isSkip (runTest_outcome this ps es) then runTest_outcome this ps es else None)"
    unfolding res_def runTest_def t using f1
    by (cases "runTest_outcome this ps es")
       (simp_all add: runTest_catch_def runTest_finally_def ops_simps isSkip_def
          endSubCase_def Let_def recCall_def mkExn_def threw_flags)
  show "caseFailed (recorder (snd res))
          = (caseFailed (recorder st) \<or> isFailure (runTest_outcome this ps es)
             \<or> list_ex isLoggedFailure (runTest_logged this ps es))"
    unfolding res_def runTest_def t using f1
    by (cases "runTest_outcome this ps es")
       (auto simp add: runTest_catch_def runTest_finally_def ops_simps isFailure_def
          endSubCase_def Let_def recCall_def mkExn_def threw_flags warn_flags)
  show "caseSkipped (recorder (snd res)) = caseSkipped (recorder st)"
    unfolding res_def runTest_def t using f1
    by (cases "runTest_outcome this ps es")
       (auto simp add: runTest_catch_def runTest_finally_def ops_simps
          endSubCase_def Let_def recCall_def mkExn_def threw_flags warn_flags)
  show "inSubCase (recorder (snd res)) = False"
    unfolding res_def runTest_def t using f1
    by (cases "runTest_outcome this ps es")
       (auto simp add: runTest_catch_def runTest_finally_def ops_simps
          endSubCase_def Let_def recCall_def mkExn_def threw_flags warn_flags)
qed

lemma run_subcase_try_spec:
  fixes st :: "TestCaseRecorder RunState" and this :: "'p RunCaseSpecific"
    and I selfQuery expectations subParams
  assumes "\<not> inSubCase (recorder st)"
  defines "res \<equiv> run_subcase_try TestCaseRecorder_ops I this selfQuery expectations subParams st"
    and "out \<equiv> subcaseOutcome I this selfQuery expectations subParams"
  shows "isSkip (fst res) = isSkip out"
    and "(caseFailed (recorder (snd res)) \<or> isFailure (fst res))
          = (caseFailed (recorder st) \<or> attemptFailed I this selfQuery expectations subParams)"
    and "caseSkipped (recorder (snd res)) = caseSkipped (recorder st)"
    and "\<not> inSubCase (recorder (snd res))"
    and "isFailure (fst res) \<longrightarrow> isFailure out"
proof -
  show "isFailure (fst res) \<longrightarrow> isFailure out"
    unfolding res_def out_def run_subcase_try_def subcaseOutcome_def
    by (auto simp add: Let_def runTest_spec_throwSkip(1) isSkip_def isFailure_def
        split: sum.splits option.splits if_splits)
  show "isSkip (fst res) = isSkip out"
    unfolding res_def out_def run_subcase_try_def subcaseOutcome_def
    by (auto simp add: Let_def runTest_spec_throwSkip(1) isSkip_def split: sum.splits)
  show "(caseFailed (recorder (snd res)) \<or> isFailure (fst res))
          = (caseFailed (recorder st) \<or> attemptFailed I this selfQuery expectations subParams)"
    unfolding res_def out_def run_subcase_try_def subcaseOutcome_def attemptFailed_def
      subcaseLogged_def
    by (auto simp add: Let_def runTest_spec_throwSkip(1,2) isSkip_def isFailure_def
        split: sum.splits option.splits)
  show "caseSkipped (recorder (snd res)) = caseSkipped (recorder st)"
    unfolding res_def out_def run_subcase_try_def subcaseOutcome_def
    by (auto simp add: Let_def runTest_spec_throwSkip(3) split: sum.splits)
  show "\<not> inSubCase (recorder (snd res))"
    using assms(1) unfolding res_def out_def run_subcase_try_def subcaseOutcome_def
    by (auto simp add: Let_def runTest_spec_throwSkip(4) split: sum.splits)
qed

lemma run_subcases_spec:
  fixes st :: "TestCaseRecorder RunState" and this :: "'p RunCaseSpecific"
  assumes "\<forall>s \<in> set subs. \<exists>str. stringifyPublicParams I s = Inr str"
    and "\<not> inSubCase (recorder st)"
  shows "\<exists>st'. run_subcases TestCaseRecorder_ops I this selfQuery expectations subs totalCount skipCount st
            = (None, totalCount + length subs,
               skipCount + length (filter (attemptRaisedSkip I this selfQuery expectations) subs),
               st')
          \<and> caseFailed (recorder st')
              = (caseFailed (recorder st)
                 \<or> (\<exists>s \<in> set subs. attemptFailed I this selfQuery expectations s))
          \<and> caseSkipped (recorder st') = caseSkipped (recorder st)"
  using assms
proof (induction subs arbitrary: totalCount skipCount st)
  case Nil
  then show ?case by simp
next
  case (Cons sub subs)
  let ?R = "TestCaseRecorder_ops"
  from Cons.prems(1) obtain str where str: "stringifyPublicParams I sub = Inr str"
    by auto
  define st1 where "st1 = recCall (CallInfo (mkExn Error (''subcase: '' @ str)))
      (rec_info ?R (mkExn Error (''subcase: '' @ str))) st"
  have st1: "\<not> inSubCase (recorder st1)" "caseFailed (recorder st1) = caseFailed (recorder st)"
     "caseSkipped (recorder st1) = caseSkipped (recorder st)"
    using Cons.prems(2) by (simp_all add: st1_def recCall_def info_flags ops_simps)
  obtain res st2 where tr: "run_subcase_try ?R I this selfQuery expectations sub st1 = (res, st2)"
    by (cases "run_subcase_try ?R I this selfQuery expectations sub st1")
  let ?skip = "attemptRaisedSkip I this selfQuery expectations sub"
  let ?fail = "attemptFailed I this selfQuery expectations sub"
  have f: "isSkip res = ?skip"
      "(caseFailed (recorder st2) \<or> isFailure res) = (caseFailed (recorder st) \<or> ?fail)"
      "caseSkipped (recorder st2) = caseSkipped (recorder st)"
      "\<not> inSubCase (recorder st2)"
      "isFailure res \<longrightarrow> ?fail"
    using run_subcase_try_spec [OF st1(1), of I this selfQuery expectations sub] tr st1
    by (simp_all add: attemptRaisedSkip_def attemptFailed_def)
  have rest: "\<forall>s \<in> set subs. \<exists>str. stringifyPublicParams I s = Inr str"
    using Cons.prems(1) by simp
  show ?case
  proof (cases res)
    case None
    have step: "run_subcases ?R I this selfQuery expectations (sub # subs) totalCount skipCount st
        = run_subcases ?R I this selfQuery expectations subs (totalCount + 1) skipCount st2"
      using tr unfolding None
      by (simp only: run_subcases.simps str sum.case Let_def st1_def [symmetric] prod.case option.case)
    from None f have o: "\<not> ?skip"
       "caseFailed (recorder st2) = (caseFailed (recorder st) \<or> ?fail)"
      by (simp_all add: isSkip_def isFailure_def)
    from Cons.IH [OF rest f(4), of "totalCount + 1" skipCount]
    show ?thesis
      unfolding step using o f(3) by auto
  next
    case (Some ex)
    show ?thesis
    proof (cases "exnClass ex = SkipTestCase")
      case True
      define st3 where "st3 = recCall (CallInfo (ex\<lparr>message := ''subcase skipped: '' @ message ex\<rparr>))
          (rec_info ?R (ex\<lparr>message := ''subcase skipped: '' @ message ex\<rparr>)) st2"
      have st3: "\<not> inSubCase (recorder st3)" "caseFailed (recorder st3) = caseFailed (recorder st2)"
         "caseSkipped (recorder st3) = caseSkipped (recorder st2)"
        using f(4) by (simp_all add: st3_def recCall_def info_flags ops_simps)
      have step: "run_subcases ?R I this selfQuery expectations (sub # subs) totalCount skipCount st
          = run_subcases ?R I this selfQuery expectations subs (totalCount + 1) (skipCount + 1) st3"
        using tr True unfolding Some
        by (simp only: run_subcases.simps str sum.case Let_def st1_def [symmetric]
              st3_def [symmetric] prod.case option.case if_True simp_thms)
      from Some True f have o: "?skip"
          "caseFailed (recorder st2) = (caseFailed (recorder st) \<or> ?fail)"
        by (auto simp add: isSkip_def isFailure_def split: option.splits)
      from Cons.IH [OF rest st3(1), of "totalCount + 1" "skipCount + 1"]
      show ?thesis
        unfolding step using o f(3) st3 by auto
    next
      case False
      define st3 where "st3 = recCall (CallThrew ex) (rec_threw ?R ex) st2"
      have st3: "\<not> inSubCase (recorder st3)" "caseFailed (recorder st3)"
         "caseSkipped (recorder st3) = caseSkipped (recorder st2)"
        using f(4) False by (simp_all add: st3_def recCall_def threw_flags ops_simps)
      have step: "run_subcases ?R I this selfQuery expectations (sub # subs) totalCount skipCount st
          = run_subcases ?R I this selfQuery expectations subs (totalCount + 1) skipCount st3"
        using tr False unfolding Some
        by (simp only: run_subcases.simps str sum.case Let_def st1_def [symmetric]
              st3_def [symmetric] prod.case option.case if_False simp_thms)
      from Some False f have o: "\<not> ?skip" "?fail"
        by (auto simp add: isSkip_def isFailure_def split: option.splits)
      from Cons.IH [OF rest st3(1), of "totalCount + 1" skipCount]
      show ?thesis
        unfolding step using o f(3) st3 by auto
    qed
  qed
qed

lemma runTest_calls_skipped:
  "CallSkipped x \<in> set (calls (snd (runTest R this ps throwSkip es st)))
     \<longleftrightarrow> CallSkipped x \<in> set (calls st)"
proof -
  obtain r1 st1 where t: "runTest_try R this ps es st = (r1, st1)"
    by (cases "runTest_try R this ps es st")
  have c1: "CallSkipped x \<in> set (calls st1) \<longleftrightarrow> CallSkipped x \<in> set (calls st)"
    using t runTest_try_calls [of R this ps es st]
    by (auto split: if_splits sum.splits)
  obtain r2 st2 where c: "runTest_catch R throwSkip (r1, st1) = (r2, st2)"
    by (cases "runTest_catch R throwSkip (r1, st1)")
  have c2: "CallSkipped x \<in> set (calls st2) \<longleftrightarrow> CallSkipped x \<in> set (calls st1)"
    using runTest_catch_calls [of R throwSkip r1 st1] c by (auto split: option.splits if_splits)
  obtain w where w: "calls (snd (runTest_finally R this es (r2, st2)))
      = calls st2 @ CallEndSubCase es # w" "w = [] \<or> (\<exists>ex. w = [CallWarn ex])"
    using runTest_finally_calls [of R this es r2 st2] by auto
  then have c3: "CallSkipped x \<in> set (calls (snd (runTest_finally R this es (r2, st2))))
      \<longleftrightarrow> CallSkipped x \<in> set (calls st2)"
    by auto
  show ?thesis
    using c1 c2 c3 by (simp add: runTest_def t c)
qed

lemma run_subcase_try_calls_skipped:
  "CallSkipped x \<in> set (calls (snd (run_subcase_try R I this q exps sub st)))
     \<longleftrightarrow> CallSkipped x \<in> set (calls st)"
  by (simp add: run_subcase_try_def Let_def runTest_calls_skipped split: sum.splits)

lemma run_subcases_calls_skipped:
  "CallSkipped x \<in> set (calls (snd (snd (snd (run_subcases R I this q exps subs t s st)))))
     \<longleftrightarrow> CallSkipped x \<in> set (calls st)"
proof (induction subs arbitrary: t s st)
  case Nil
  show ?case by simp
next
  case (Cons sub subs)
  show ?case
  proof (cases "stringifyPublicParams I sub")
    case (Inl ex)
    then show ?thesis by simp
  next
    case (Inr str)
    define st1 where "st1 = recCall (CallInfo (mkExn Error (''subcase: '' @ str)))
      (rec_info R (mkExn Error (''subcase: '' @ str))) st"
    have st1: "CallSkipped x \<in> set (calls st1) \<longleftrightarrow> CallSkipped x \<in> set (calls st)"
      by (simp add: st1_def recCall_def)
    obtain res st2 where tr: "run_subcase_try R I this q exps sub st1 = (res, st2)"
      by (cases "run_subcase_try R I this q exps sub st1")
    have st2: "CallSkipped x \<in> set (calls st2) \<longleftrightarrow> CallSkipped x \<in> set (calls st)"
      using run_subcase_try_calls_skipped [of x R I this q exps sub st1] tr st1 by simp
    show ?thesis
    proof (cases res)
      case None
      have step: "run_subcases R I this q exps (sub # subs) t s st
          = run_subcases R I this q exps subs (t + 1) s st2"
        using tr unfolding None
        by (simp only: run_subcases.simps Inr sum.case Let_def st1_def [symmetric] prod.case option.case)
      show ?thesis unfolding step using Cons.IH st2 by simp
    next
      case (Some ex)
      show ?thesis
      proof (cases "exnClass ex = SkipTestCase")
        case True
        define st3 where "st3 = recCall (CallInfo (ex\<lparr>message := ''subcase skipped: '' @ message ex\<rparr>))
          (rec_info R (ex\<lparr>message := ''subcase skipped: '' @ message ex\<rparr>)) st2"
        have st3: "CallSkipped x \<in> set (calls st3) \<longleftrightarrow> CallSkipped x \<in> set (calls st2)"
          by (simp add: st3_def recCall_def)
        have step: "run_subcases R I this q exps (sub # subs) t s st
            = run_subcases R I this q exps subs (t + 1) (s + 1) st3"
          using tr True unfolding Some
          by (simp only: run_subcases.simps Inr sum.case Let_def st1_def [symmetric]
                st3_def [symmetric] prod.case option.case if_True simp_thms)
        show ?thesis unfolding step using Cons.IH st2 st3 by simp
      next
        case False
        define st3 where "st3 = recCall (CallThrew ex) (rec_threw R ex) st2"
        have st3: "CallSkipped x \<in> set (calls st3) \<longleftrightarrow> CallSkipped x \<in> set (calls st2)"
          by (simp add: st3_def recCall_def)
        have step: "run_subcases R I this q exps (sub # subs) t s st
            = run_subcases R I this q exps subs (t + 1) s st3"
          using tr False unfolding Some
          by (simp only: run_subcases.simps Inr sum.case Let_def st1_def [symmetric]
                st3_def [symmetric] prod.case option.case if_False simp_thms)
        show ?thesis unfolding step using Cons.IH st2 st3 by simp
      qed
    qed
  qed
qed

lemma length_filter_eq_all:
  "length (filter P xs) = length xs \<longleftrightarrow> (\<forall>x \<in> set xs. P x)"
proof (induction xs)
  case Nil
  show ?case by simp
next
  case (Cons x xs)
  have le: "length (filter P xs) \<le> length xs" by simp
  show ?case
  proof (cases "P x")
    case True
    with Cons show ?thesis by simp
  next
    case False
    from le have "length (filter P xs) \<noteq> Suc (length xs)" by arith
    with False show ?thesis by simp
  qed
qed

lemma pushDeduplicated_has:
  "\<exists>l \<in> set (pushDeduplicated m ls). name l = name m \<and> message l = message m \<and> stack l = stack m"
  by (induction ls) (auto simp add: sameSignature_def incrementTimesSeen_def)

lemma logImpl_logged:
  "\<exists>l \<in> set (logs (logImpl lvl nm ex r)). name l = nm \<and> message l = message ex"
  using pushDeduplicated_has [of "newLogMessageWithStack nm ex"]
  by (cases lvl) (auto simp add: logImpl_def Let_def newLogMessageWithStack_def)

lemma pushDeduplicated_keeps:
  "l \<in> set ls \<Longrightarrow> \<exists>l' \<in> set (pushDeduplicated m ls). name l' = name l \<and> message l' = message l"
  by (induction ls) (auto simp add: incrementTimesSeen_def)

lemma logImpl_keeps:
  "\<exists>l \<in> set (logs r). name l = nm \<and> message l = msg
   \<Longrightarrow> \<exists>l \<in> set (logs (logImpl lvl nm' ex r)). name l = nm \<and> message l = msg"
proof -
  assume "\<exists>l \<in> set (logs r). name l = nm \<and> message l = msg"
  then obtain l where "l \<in> set (logs r)" "name l = nm" "message l = msg" by blast
  with pushDeduplicated_keeps [of l "logs r" "newLogMessageWithStack nm' ex"]
  show ?thesis
    by (cases lvl) (auto simp add: logImpl_def Let_def)
qed

text \<open>
  C5. For every case with subcases whose parameters stringify, run on the recorder as the
  spec describes it, \<open>run\<close> returns normally and the overall status is: \<open>'skip'\<close>
  if and only if every subcase was skipped (it raised the skip condition and recorded no
  failure); \<open>'fail'\<close> if any subcase failed (the test logged a failure, or the attempt
  ended with an exception other than \<open>SkipTestCase\<close>); \<open>'pass'\<close> otherwise.
  \<open>rec.skipped\<close> is called with the \<open>SkipTestCase\<close> whose message is
  \<open>all subcases were skipped\<close> exactly when every subcase raised the skip condition.
  Warnings play no part: what the test logs counts only where it is a failure.
\<close>

theorem run_overall_status:
  fixes this :: "'p RunCaseSpecific" and r :: TestCaseRecorder
  assumes "rc_subcases this = Some subs"
    and "\<forall>s \<in> set subs. \<exists>str. stringifyPublicParams I s = Inr str"
  shows "fst (run TestCaseRecorder_ops I this selfQuery expectations \<lparr>recorder = r, calls = []\<rparr>) = None
    \<and> (resultStatus (recorder (snd (run TestCaseRecorder_ops I this selfQuery expectations
            \<lparr>recorder = r, calls = []\<rparr>))) = Some StatusSkip
        \<longleftrightarrow> (\<forall>s \<in> set subs. attemptSkipped I this selfQuery expectations s))
    \<and> (CallSkipped \<lparr>exnClass = SkipTestCase, message = ''all subcases were skipped'',
                      stack = None\<rparr>
          \<in> set (calls (snd (run TestCaseRecorder_ops I this selfQuery
            expectations \<lparr>recorder = r, calls = []\<rparr>)))
        \<longleftrightarrow> (\<forall>s \<in> set subs. attemptRaisedSkip I this selfQuery expectations s))
    \<and> ((\<exists>s \<in> set subs. attemptFailed I this selfQuery expectations s)
        \<longrightarrow> resultStatus (recorder (snd (run TestCaseRecorder_ops I this selfQuery expectations
            \<lparr>recorder = r, calls = []\<rparr>))) = Some StatusFail)
    \<and> (\<not> (\<exists>s \<in> set subs. attemptFailed I this selfQuery expectations s)
        \<and> \<not> (\<forall>s \<in> set subs. attemptSkipped I this selfQuery expectations s)
        \<longrightarrow> resultStatus (recorder (snd (run TestCaseRecorder_ops I this selfQuery expectations
            \<lparr>recorder = r, calls = []\<rparr>))) = Some StatusPass)"
proof -
  let ?R = "TestCaseRecorder_ops"
  let ?skip = "attemptRaisedSkip I this selfQuery expectations"
  let ?fail = "attemptFailed I this selfQuery expectations"
  let ?all = "\<lparr>exnClass = SkipTestCase, message = ''all subcases were skipped'', stack = None\<rparr>"
  define st0 where "st0 = recCall CallStart (rec_start ?R) \<lparr>recorder = r, calls = []\<rparr>"
  have st0: "\<not> inSubCase (recorder st0)" "\<not> caseFailed (recorder st0)"
     "\<not> caseSkipped (recorder st0)" "calls st0 = [CallStart]"
    by (simp_all add: st0_def recCall_def ops_simps start_def)
  obtain st1 where loop: "run_subcases ?R I this selfQuery expectations subs 0 0 st0
       = (None, 0 + length subs, 0 + length (filter ?skip subs), st1)"
     and st1: "caseFailed (recorder st1) = (caseFailed (recorder st0) \<or> (\<exists>s \<in> set subs. ?fail s))"
       "caseSkipped (recorder st1) = caseSkipped (recorder st0)"
    using run_subcases_spec [OF assms(2) st0(1), of this selfQuery expectations 0 0] by blast
  have nosk: "CallSkipped ?all \<notin> set (calls st1)"
    using run_subcases_calls_skipped [of ?all ?R I this selfQuery expectations subs 0 0 st0]
      loop st0(4) by simp
  have all: "(length (filter ?skip subs) = length subs) \<longleftrightarrow> (\<forall>s \<in> set subs. ?skip s)"
    by (rule length_filter_eq_all)
  have sk: "(\<forall>s \<in> set subs. attemptSkipped I this selfQuery expectations s)
      \<longleftrightarrow> (\<forall>s \<in> set subs. ?skip s) \<and> \<not> (\<exists>s \<in> set subs. ?fail s)"
    by (auto simp add: attemptSkipped_def)
  define st2 where "st2 = (if length (filter ?skip subs) = length subs
       then recCall (CallSkipped ?all) (rec_skipped ?R ?all) st1 else st1)"
  have runeq: "run ?R I this selfQuery expectations \<lparr>recorder = r, calls = []\<rparr>
      = (None, recCall CallFinish (rec_finish ?R) st2)"
    using loop assms(1)
    by (simp add: run_def Let_def st0_def [symmetric] st2_def eq_commute [of "length subs"]
        mkExn_def)
  have st2: "caseFailed (recorder st2) = (\<exists>s \<in> set subs. ?fail s)"
     "caseSkipped (recorder st2) = (\<forall>s \<in> set subs. ?skip s)"
     "CallSkipped ?all \<in> set (calls st2) \<longleftrightarrow> (\<forall>s \<in> set subs. ?skip s)"
    using st1 st0 all nosk
    by (auto simp add: st2_def recCall_def ops_simps skipped_def logImpl_flags)
  have a: "fst (run ?R I this selfQuery expectations \<lparr>recorder = r, calls = []\<rparr>) = None"
    by (simp add: runeq)
  have b: "resultStatus (recorder (snd (run ?R I this selfQuery expectations
            \<lparr>recorder = r, calls = []\<rparr>)))
       = Some (if \<exists>s \<in> set subs. ?fail s then StatusFail
               else if \<forall>s \<in> set subs. ?skip s then StatusSkip else StatusPass)"
    unfolding runeq using st2(1,2) by (simp add: recCall_def ops_simps finish_def)
  have c: "CallSkipped ?all \<in> set (calls (snd (run ?R I this selfQuery expectations
            \<lparr>recorder = r, calls = []\<rparr>))) \<longleftrightarrow> (\<forall>s \<in> set subs. ?skip s)"
    unfolding runeq using st2(3) by (simp add: recCall_def)
  show ?thesis
    unfolding a b c sk by auto
qed

lemma runTest_spec_pass:
  fixes this :: "'p RunCaseSpecific" and st :: "TestCaseRecorder RunState" and throwSkip :: bool
  assumes "snd (rc_fixture this ps) = Inr inst" "outcome (init inst) = None"
    "outcome (rc_fn this ps) = None" "outcome (finalize inst) = None"
    and "\<not> list_ex isLoggedFailure
           (fst (rc_fixture this ps) @ logged (init inst) @ logged (rc_fn this ps)
              @ logged (finalize inst))"
  defines "res \<equiv> runTest TestCaseRecorder_ops this ps throwSkip Fail st"
  shows "fst res = None"
    and "calls (snd res) =
       calls st @ [CallBeginSubCase, CallConstructor] @ map CallLog (fst (rc_fixture this ps))
         @ CallInit # map CallLog (logged (init inst))
         @ CallFn # map CallLog (logged (rc_fn this ps))
         @ CallFinalize # map CallLog (logged (finalize inst))
         @ [CallEndSubCase Fail,
            CallWarn \<lparr>exnClass = UnexpectedPassError, message = ''Testcase passed unexpectedly.'',
                      stack = stack (rc_testCreationStack this)\<rparr>]"
    and "caseFailed (recorder (snd res)) = caseFailed (recorder st)"
    and "caseSkipped (recorder (snd res)) = caseSkipped (recorder st)"
    and "\<not> inSubCase (recorder (snd res))"
    and "\<exists>l \<in> set (logs (recorder (snd res))).
           name l = ''WARN'' \<and> message l = ''Testcase passed unexpectedly.''"
proof -
  let ?w = "\<lparr>exnClass = UnexpectedPassError, message = ''Testcase passed unexpectedly.'',
             stack = stack (rc_testCreationStack this)\<rparr>"
  have lg: "runTest_logged this ps Fail
      = fst (rc_fixture this ps) @ logged (init inst) @ logged (rc_fn this ps)
          @ logged (finalize inst)"
    using assms(1,2) by (simp add: runTest_logged_def)
  have out: "runTest_outcome this ps Fail = None"
    using assms(1-4) by (simp add: runTest_outcome_def)
  obtain st1 where t: "runTest_try TestCaseRecorder_ops this ps Fail st = (None, st1)"
    and r1: "recorder st1 = fold fixtureLog (runTest_logged this ps Fail) (beginSubCase (recorder st))"
    and c1: "calls st1 = calls st @ [CallBeginSubCase, CallConstructor]
         @ map CallLog (fst (rc_fixture this ps))
         @ CallInit # map CallLog (logged (init inst))
         @ CallFn # map CallLog (logged (rc_fn this ps))
         @ CallFinalize # map CallLog (logged (finalize inst))"
    using runTest_try_outcome [of TestCaseRecorder_ops this ps Fail st]
      runTest_try_recorder [of TestCaseRecorder_ops this ps Fail st]
      runTest_try_calls [of TestCaseRecorder_ops this ps Fail st] assms(1,2) out
    by (cases "runTest_try TestCaseRecorder_ops this ps Fail st") (simp add: ops_simps)
  have f1: "inSubCase (recorder st1)" "\<not> subCaseFailed (recorder st1)"
      "caseFailed (recorder st1) = caseFailed (recorder st)"
      "caseSkipped (recorder st1) = caseSkipped (recorder st)"
    using fold_fixtureLog_flags [of "runTest_logged this ps Fail" "beginSubCase (recorder st)"]
      assms(5)
    by (simp_all add: r1 lg beginSubCase_def)
  have rt: "res = (None,
      \<lparr>recorder = warn ?w ((recorder st1)\<lparr>inSubCase := False,
                                caseFailed := caseFailed (recorder st1) \<or> subCaseFailed (recorder st1)\<rparr>),
       calls = calls st1 @ [CallEndSubCase Fail, CallWarn ?w]\<rparr>)"
    unfolding res_def runTest_def t using f1(2)
    by (simp add: runTest_catch_def runTest_finally_def Let_def recCall_def ops_simps
        endSubCase_def mkExn_def)
  show "fst res = None" by (simp add: rt)
  show "calls (snd res) =
       calls st @ [CallBeginSubCase, CallConstructor] @ map CallLog (fst (rc_fixture this ps))
         @ CallInit # map CallLog (logged (init inst))
         @ CallFn # map CallLog (logged (rc_fn this ps))
         @ CallFinalize # map CallLog (logged (finalize inst))
         @ [CallEndSubCase Fail, CallWarn ?w]"
    by (simp add: rt c1)
  show "caseFailed (recorder (snd res)) = caseFailed (recorder st)"
    using f1 by (simp add: rt warn_flags)
  show "caseSkipped (recorder (snd res)) = caseSkipped (recorder st)"
    using f1 by (simp add: rt warn_flags)
  show "\<not> inSubCase (recorder (snd res))"
    by (simp add: rt warn_flags)
  show "\<exists>l \<in> set (logs (recorder (snd res))).
           name l = ''WARN'' \<and> message l = ''Testcase passed unexpectedly.''"
    using logImpl_logged [of SeverityWarn "''WARN''" ?w]
    by (simp add: rt warn_def)
qed

lemma run_single_subcase_unexpected_pass:
  fixes this :: "'p RunCaseSpecific" and r :: TestCaseRecorder
  assumes "snd (rc_fixture this ps) = Inr inst" "outcome (init inst) = None"
    "outcome (rc_fn this ps) = None" "outcome (finalize inst) = None"
    and "\<not> list_ex isLoggedFailure
           (fst (rc_fixture this ps) @ logged (init inst) @ logged (rc_fn this ps)
              @ logged (finalize inst))"
    and "rc_subcases this = Some [sub]" "stringifyPublicParams I sub = Inr str"
    and "mergeParams I (rc_params this) sub = Inr ps"
    and "getExpectedStatus (compareQueries I) expectations
           \<lparr>suite = suite selfQuery, filePathParts = filePathParts selfQuery,
            testPathParts = testPathParts selfQuery, params = ps\<rparr> = Inr Fail"
  shows "fst (run TestCaseRecorder_ops I this selfQuery expectations \<lparr>recorder = r, calls = []\<rparr>)
             = None
         \<and> resultStatus (recorder (snd (run TestCaseRecorder_ops I this selfQuery expectations
               \<lparr>recorder = r, calls = []\<rparr>))) = Some StatusPass
         \<and> (\<exists>l \<in> set (logs (recorder (snd (run TestCaseRecorder_ops I this selfQuery expectations
               \<lparr>recorder = r, calls = []\<rparr>)))).
               name l = ''WARN'' \<and> message l = ''Testcase passed unexpectedly.'')"
proof -
  let ?R = "TestCaseRecorder_ops"
  let ?info = "mkExn Error (''subcase: '' @ str)"
  let ?st0 = "recCall CallStart (rec_start ?R) \<lparr>recorder = r, calls = []\<rparr>"
  let ?st1 = "recCall (CallInfo ?info) (rec_info ?R ?info) ?st0"
  obtain st2 where rt: "runTest ?R this ps True Fail ?st1 = (None, st2)"
    and fl: "\<not> caseFailed (recorder st2)" "\<not> caseSkipped (recorder st2)"
    and lg: "\<exists>l \<in> set (logs (recorder st2)).
           name l = ''WARN'' \<and> message l = ''Testcase passed unexpectedly.''"
    using runTest_spec_pass [OF assms(1-5), of True ?st1]
    by (cases "runTest ?R this ps True Fail ?st1")
       (simp add: info_flags recCall_def ops_simps start_def)
  have tr: "run_subcase_try ?R I this selfQuery expectations sub ?st1 = (None, st2)"
    using assms(8,9) rt by (simp add: run_subcase_try_def Let_def)
  have loop: "run_subcases ?R I this selfQuery expectations [sub] 0 0 ?st0 = (None, 1, 0, st2)"
    using tr
    by (simp only: run_subcases.simps assms(7) sum.case Let_def prod.case option.case add_0)
  have runeq: "run ?R I this selfQuery expectations \<lparr>recorder = r, calls = []\<rparr>
      = (None, recCall CallFinish (rec_finish ?R) st2)"
    using loop assms(6)
    by (simp only: run_def Let_def option.case prod.case) simp
  show ?thesis
    unfolding runeq using fl lg
    by (simp add: recCall_def ops_simps finish_def)
qed

text \<open>
  C4. For every subcase whose expected status is \<open>'fail'\<close> and which completes without
  error (constructor, \<open>init()\<close>, body and \<open>finalize()\<close> all return normally and none
  of them logs a failure), on the recorder as the spec describes it: \<open>runTest\<close> returns
  normally, and after \<open>endSubCase\<close> its only further call is \<open>rec.warn\<close> with the
  \<open>UnexpectedPassError\<close> whose message is \<open>Testcase passed unexpectedly.\<close> and
  whose stack is the one of the test's creation (no call to \<open>rec.threw\<close>). A case with
  that single subcase, implicit (no subcases) or explicit (one subcase), finishes with
  overall status \<open>'pass'\<close> and a \<open>WARN\<close> message with that text in its log.
\<close>

theorem runTest_unexpected_pass:
  fixes this :: "'p RunCaseSpecific" and st :: "TestCaseRecorder RunState"
  assumes "snd (rc_fixture this ps) = Inr inst" "outcome (init inst) = None"
    "outcome (rc_fn this ps) = None" "outcome (finalize inst) = None"
    and "\<not> list_ex isLoggedFailure
           (fst (rc_fixture this ps) @ logged (init inst) @ logged (rc_fn this ps)
              @ logged (finalize inst))"
  shows "fst (runTest TestCaseRecorder_ops this ps throwSkip Fail st) = None
    \<and> calls (snd (runTest TestCaseRecorder_ops this ps throwSkip Fail st))
        = calls st @ [CallBeginSubCase, CallConstructor] @ map CallLog (fst (rc_fixture this ps))
            @ CallInit # map CallLog (logged (init inst))
            @ CallFn # map CallLog (logged (rc_fn this ps))
            @ CallFinalize # map CallLog (logged (finalize inst))
            @ [CallEndSubCase Fail,
               CallWarn \<lparr>exnClass = UnexpectedPassError,
                         message = ''Testcase passed unexpectedly.'',
                         stack = stack (rc_testCreationStack this)\<rparr>]
    \<and> (rc_subcases this = None \<and> ps = rc_params this
         \<and> getExpectedStatus (compareQueries I) expectations selfQuery = Inr Fail
       \<longrightarrow> fst (run TestCaseRecorder_ops I this selfQuery expectations \<lparr>recorder = r, calls = []\<rparr>)
             = None
         \<and> resultStatus (recorder (snd (run TestCaseRecorder_ops I this selfQuery expectations
               \<lparr>recorder = r, calls = []\<rparr>))) = Some StatusPass
         \<and> (\<exists>l \<in> set (logs (recorder (snd (run TestCaseRecorder_ops I this selfQuery expectations
               \<lparr>recorder = r, calls = []\<rparr>)))).
               name l = ''WARN'' \<and> message l = ''Testcase passed unexpectedly.''))
    \<and> (rc_subcases this = Some [sub] \<and> stringifyPublicParams I sub = Inr str
         \<and> mergeParams I (rc_params this) sub = Inr ps
         \<and> getExpectedStatus (compareQueries I) expectations
               \<lparr>suite = suite selfQuery, filePathParts = filePathParts selfQuery,
                testPathParts = testPathParts selfQuery, params = ps\<rparr> = Inr Fail
       \<longrightarrow> fst (run TestCaseRecorder_ops I this selfQuery expectations \<lparr>recorder = r, calls = []\<rparr>)
             = None
         \<and> resultStatus (recorder (snd (run TestCaseRecorder_ops I this selfQuery expectations
               \<lparr>recorder = r, calls = []\<rparr>))) = Some StatusPass
         \<and> (\<exists>l \<in> set (logs (recorder (snd (run TestCaseRecorder_ops I this selfQuery expectations
               \<lparr>recorder = r, calls = []\<rparr>)))).
               name l = ''WARN'' \<and> message l = ''Testcase passed unexpectedly.''))"
proof -
  have d: "fst (run TestCaseRecorder_ops I this selfQuery expectations \<lparr>recorder = r, calls = []\<rparr>)
             = None
         \<and> resultStatus (recorder (snd (run TestCaseRecorder_ops I this selfQuery expectations
               \<lparr>recorder = r, calls = []\<rparr>))) = Some StatusPass
         \<and> (\<exists>l \<in> set (logs (recorder (snd (run TestCaseRecorder_ops I this selfQuery expectations
               \<lparr>recorder = r, calls = []\<rparr>)))).
               name l = ''WARN'' \<and> message l = ''Testcase passed unexpectedly.'')"
    if "rc_subcases this = Some [sub]" "stringifyPublicParams I sub = Inr str"
       "mergeParams I (rc_params this) sub = Inr ps"
       "getExpectedStatus (compareQueries I) expectations
               \<lparr>suite = suite selfQuery, filePathParts = filePathParts selfQuery,
                testPathParts = testPathParts selfQuery, params = ps\<rparr> = Inr Fail"
    using run_single_subcase_unexpected_pass [OF assms that] .
  have a: "fst (runTest TestCaseRecorder_ops this ps throwSkip Fail st) = None"
    by (rule runTest_spec_pass(1) [OF assms])
  have b: "calls (snd (runTest TestCaseRecorder_ops this ps throwSkip Fail st))
        = calls st @ [CallBeginSubCase, CallConstructor] @ map CallLog (fst (rc_fixture this ps))
            @ CallInit # map CallLog (logged (init inst))
            @ CallFn # map CallLog (logged (rc_fn this ps))
            @ CallFinalize # map CallLog (logged (finalize inst))
            @ [CallEndSubCase Fail,
               CallWarn \<lparr>exnClass = UnexpectedPassError,
                         message = ''Testcase passed unexpectedly.'',
                         stack = stack (rc_testCreationStack this)\<rparr>]"
    by (rule runTest_spec_pass(2) [OF assms])
  have c: "fst (run TestCaseRecorder_ops I this selfQuery expectations \<lparr>recorder = r, calls = []\<rparr>)
             = None
         \<and> resultStatus (recorder (snd (run TestCaseRecorder_ops I this selfQuery expectations
               \<lparr>recorder = r, calls = []\<rparr>))) = Some StatusPass
         \<and> (\<exists>l \<in> set (logs (recorder (snd (run TestCaseRecorder_ops I this selfQuery expectations
               \<lparr>recorder = r, calls = []\<rparr>)))).
               name l = ''WARN'' \<and> message l = ''Testcase passed unexpectedly.'')"
    if h: "rc_subcases this = None" "ps = rc_params this"
      "getExpectedStatus (compareQueries I) expectations selfQuery = Inr Fail"
  proof -
    let ?st0 = "recCall CallStart (rec_start TestCaseRecorder_ops) \<lparr>recorder = r, calls = []\<rparr>"
    obtain st2 where rt: "runTest TestCaseRecorder_ops this (rc_params this) False Fail ?st0 = (None, st2)"
      and fl: "\<not> caseFailed (recorder st2)" "\<not> caseSkipped (recorder st2)"
      and lg: "\<exists>l \<in> set (logs (recorder st2)).
             name l = ''WARN'' \<and> message l = ''Testcase passed unexpectedly.''"
      using runTest_spec_pass [OF assms, of False ?st0] h(2)
      by (cases "runTest TestCaseRecorder_ops this (rc_params this) False Fail ?st0")
         (simp add: recCall_def ops_simps start_def)
    have runeq: "run TestCaseRecorder_ops I this selfQuery expectations \<lparr>recorder = r, calls = []\<rparr>
       = (None, recCall CallFinish (rec_finish TestCaseRecorder_ops) st2)"
      using h rt by (simp add: run_def Let_def)
    show ?thesis
      unfolding runeq using fl lg
      by (simp add: recCall_def ops_simps finish_def)
  qed
  from a b c d show ?thesis by blast
qed

text \<open>
  The example test, expected to fail: the body returns without logging, and the body logs
  a warning and returns.
\<close>

theorem runTest_unexpected_pass_witness:
  "resultStatus (recorder (snd (run TestCaseRecorder_ops Imports_spec (exampleCase [] None)
      (exampleQuery []) [\<lparr>query = exampleQuery [], expectation = Fail\<rparr>]
      \<lparr>recorder = newTestCaseRecorder, calls = []\<rparr>))) = Some StatusPass
   \<and> calls (snd (runTest TestCaseRecorder_ops (exampleCase [] None) [] False Fail freshState))
      = [CallBeginSubCase, CallConstructor, CallInit, CallFn, CallFinalize, CallEndSubCase Fail,
         CallWarn \<lparr>exnClass = UnexpectedPassError, message = ''Testcase passed unexpectedly.'',
                   stack = Some ''at t''\<rparr>]
   \<and> calls (snd (runTest TestCaseRecorder_ops (exampleCase [] None) [(''mode'', ''slow'')]
        False Fail freshState))
      = [CallBeginSubCase, CallConstructor, CallInit, CallFn,
         CallLog (LoggedWarning \<lparr>exnClass = Error, message = ''took long'', stack = None\<rparr>),
         CallFinalize, CallEndSubCase Fail,
         CallWarn \<lparr>exnClass = UnexpectedPassError, message = ''Testcase passed unexpectedly.'',
                   stack = Some ''at t''\<rparr>]"
  using runTest_unexpected_pass [where this = "exampleCase [] None" and ps = "[]"
      and inst = "\<lparr>init = \<lparr>logged = [], outcome = None\<rparr>,
                   finalize = \<lparr>logged = [], outcome = None\<rparr>\<rparr>"
      and throwSkip = False and st = freshState
      and I = Imports_spec and expectations = "[\<lparr>query = exampleQuery [], expectation = Fail\<rparr>]"
      and selfQuery = "exampleQuery []" and r = newTestCaseRecorder]
    runTest_unexpected_pass [where this = "exampleCase [] None" and ps = "[(''mode'', ''slow'')]"
      and inst = "\<lparr>init = \<lparr>logged = [], outcome = None\<rparr>,
                   finalize = \<lparr>logged = [], outcome = None\<rparr>\<rparr>"
      and throwSkip = False and st = freshState]
  by (simp add: example_defs getExpectedStatus_def compareQueries_spec_def comparePaths_def
      compareParams_def)

text \<open>
  Three subcases that all skip; one of three that throws; one of three whose body logs a
  failed expectation and returns; one of two whose body logs a warning.
\<close>

theorem run_overall_status_witness:
  "resultStatus (recorder (snd (run TestCaseRecorder_ops Imports_spec
      (exampleCase [] (Some [[(''mode'', ''skip''), (''i'', ''0'')],
                             [(''mode'', ''skip''), (''i'', ''1'')],
                             [(''mode'', ''skip''), (''i'', ''2'')]]))
      (exampleQuery []) [] \<lparr>recorder = newTestCaseRecorder, calls = []\<rparr>))) = Some StatusSkip
   \<and> CallSkipped \<lparr>exnClass = SkipTestCase, message = ''all subcases were skipped'',
                    stack = None\<rparr>
       \<in> set (calls (snd (run TestCaseRecorder_ops Imports_spec
      (exampleCase [] (Some [[(''mode'', ''skip''), (''i'', ''0'')],
                             [(''mode'', ''skip''), (''i'', ''1'')],
                             [(''mode'', ''skip''), (''i'', ''2'')]]))
      (exampleQuery []) [] \<lparr>recorder = newTestCaseRecorder, calls = []\<rparr>)))
   \<and> resultStatus (recorder (snd (run TestCaseRecorder_ops Imports_spec
      (exampleCase [] (Some [[(''mode'', ''skip''), (''i'', ''0'')],
                             [(''mode'', ''throw''), (''i'', ''1'')],
                             [(''mode'', ''pass''), (''i'', ''2'')]]))
      (exampleQuery []) [] \<lparr>recorder = newTestCaseRecorder, calls = []\<rparr>))) = Some StatusFail
   \<and> resultStatus (recorder (snd (run TestCaseRecorder_ops Imports_spec
      (exampleCase [] (Some [[(''mode'', ''pass''), (''i'', ''0'')],
                             [(''mode'', ''mismatch''), (''i'', ''1'')],
                             [(''mode'', ''pass''), (''i'', ''2'')]]))
      (exampleQuery []) [] \<lparr>recorder = newTestCaseRecorder, calls = []\<rparr>))) = Some StatusFail
   \<and> resultStatus (recorder (snd (run TestCaseRecorder_ops Imports_spec
      (exampleCase [] (Some [[(''mode'', ''slow''), (''i'', ''0'')],
                             [(''mode'', ''skip''), (''i'', ''1'')]]))
      (exampleQuery []) [] \<lparr>recorder = newTestCaseRecorder, calls = []\<rparr>))) = Some StatusPass"
  using run_overall_status [where this = "exampleCase [] (Some [[(''mode'', ''skip''), (''i'', ''0'')],
                             [(''mode'', ''skip''), (''i'', ''1'')],
                             [(''mode'', ''skip''), (''i'', ''2'')]])"
      and subs = "[[(''mode'', ''skip''), (''i'', ''0'')],
                             [(''mode'', ''skip''), (''i'', ''1'')],
                             [(''mode'', ''skip''), (''i'', ''2'')]]"
      and I = Imports_spec and selfQuery = "exampleQuery []" and expectations = "[]"
      and r = newTestCaseRecorder]
    run_overall_status [where this = "exampleCase [] (Some [[(''mode'', ''skip''), (''i'', ''0'')],
                             [(''mode'', ''throw''), (''i'', ''1'')],
                             [(''mode'', ''pass''), (''i'', ''2'')]])"
      and subs = "[[(''mode'', ''skip''), (''i'', ''0'')],
                             [(''mode'', ''throw''), (''i'', ''1'')],
                             [(''mode'', ''pass''), (''i'', ''2'')]]"
      and I = Imports_spec and selfQuery = "exampleQuery []" and expectations = "[]"
      and r = newTestCaseRecorder]
    run_overall_status [where this = "exampleCase [] (Some [[(''mode'', ''pass''), (''i'', ''0'')],
                             [(''mode'', ''mismatch''), (''i'', ''1'')],
                             [(''mode'', ''pass''), (''i'', ''2'')]])"
      and subs = "[[(''mode'', ''pass''), (''i'', ''0'')],
                             [(''mode'', ''mismatch''), (''i'', ''1'')],
                             [(''mode'', ''pass''), (''i'', ''2'')]]"
      and I = Imports_spec and selfQuery = "exampleQuery []" and expectations = "[]"
      and r = newTestCaseRecorder]
    run_overall_status [where this = "exampleCase [] (Some [[(''mode'', ''slow''), (''i'', ''0'')],
                             [(''mode'', ''skip''), (''i'', ''1'')]])"
      and subs = "[[(''mode'', ''slow''), (''i'', ''0'')],
                             [(''mode'', ''skip''), (''i'', ''1'')]]"
      and I = Imports_spec and selfQuery = "exampleQuery []" and expectations = "[]"
      and r = newTestCaseRecorder]
  by (simp add: example_defs subcaseOutcome_def subcaseLogged_def runTest_outcome_def
      runTest_logged_def isSkip_def isFailure_def attemptFailed_def attemptRaisedSkip_def
      attemptSkipped_def mergeParams_spec_def getExpectedStatus_def)

section \<open>Log messages: results\<close>

lemma logs_logImpl:
  "logs (logImpl lvl nm ex r) = pushDeduplicated (newLogMessageWithStack nm ex) (logs r)"
  by (cases lvl) (simp_all add: logImpl_def Let_def)

lemma logs_logImpl_funpow:
  "logs (((logImpl lvl nm ex) ^^ n) r) = ((pushDeduplicated (newLogMessageWithStack nm ex)) ^^ n) (logs r)"
  by (induction n) (simp_all add: logs_logImpl)

lemma pushDeduplicated_repeat:
  "timesSeen m = 1 \<Longrightarrow> ((pushDeduplicated m) ^^ Suc n) [] = [m\<lparr>timesSeen := Suc n\<rparr>]"
proof (induction n)
  case 0
  then show ?case by simp
next
  case (Suc n)
  then have "((pushDeduplicated m) ^^ Suc (Suc n)) [] = pushDeduplicated m [m\<lparr>timesSeen := Suc n\<rparr>]"
    by simp
  also have "\<dots> = [m\<lparr>timesSeen := Suc (Suc n)\<rparr>]"
    by (simp add: sameSignature_def incrementTimesSeen_def)
  finally show ?case .
qed

lemma pushDeduplicated_first:
  "\<forall>x \<in> set xs. \<not> sameSignature x m \<Longrightarrow> sameSignature l m \<Longrightarrow>
     pushDeduplicated m (xs @ l # ys) = xs @ incrementTimesSeen l # ys"
  by (induction xs) simp_all

lemma pushDeduplicated_unseen:
  "\<forall>x \<in> set ls. \<not> sameSignature x m \<Longrightarrow> pushDeduplicated m ls = ls @ [m]"
  by (induction ls) simp_all

text \<open>
  C6. For every \<open>LogMessageWithStack\<close>: \<open>timesSeen\<close> starts at 1 and
  \<open>incrementTimesSeen\<close> adds exactly one. On the recorder as the spec describes it,
  logging the same signature \<open>n + 1\<close> times into an empty log leaves exactly one stored
  message, with \<open>timesSeen = n + 1\<close>. More generally, logging a signature (name,
  message, stack) that is already in the log adds exactly one to the counter of the first
  message with that signature and leaves every other message, and the order, as they
  were; logging a signature that is not in the log appends the new message, seen once.
  The rendering of a message is the rendering it has when seen once, followed exactly when
  \<open>timesSeen > 1\<close> by a line break and the note
  \<open>(duplicated N times (possibly non-consecutively); use ?debug=1 to show all)\<close>, two
  spaces in, with the count in decimal (provided the imported stack extraction does not
  read the counter).
\<close>

theorem timesSeen_counts_duplicates:
  "timesSeen (newLogMessageWithStack nm ex) = 1
   \<and> timesSeen (incrementTimesSeen m) = timesSeen m + 1
   \<and> (logs r = [] \<longrightarrow>
        logs (((logImpl lvl nm ex) ^^ Suc n) r)
          = [\<lparr>exnClass = Error, message = message ex, stack = stack ex, name = nm,
              stackHiddenMessage = None, timesSeen = Suc n\<rparr>])
   \<and> (logs r = xs @ l # ys
        \<and> name l = nm \<and> message l = message ex \<and> stack l = stack ex
        \<and> (\<forall>x \<in> set xs. \<not> (name x = nm \<and> message x = message ex \<and> stack x = stack ex))
      \<longrightarrow> logs (logImpl lvl nm ex r) = xs @ l\<lparr>timesSeen := timesSeen l + 1\<rparr> # ys)
   \<and> ((\<forall>x \<in> set (logs r). \<not> (name x = nm \<and> message x = message ex \<and> stack x = stack ex))
      \<longrightarrow> logs (logImpl lvl nm ex r)
            = logs r @ [\<lparr>exnClass = Error, message = message ex, stack = stack ex, name = nm,
                         stackHiddenMessage = None, timesSeen = 1\<rparr>])
   \<and> ((\<forall>k. stackTrace (m\<lparr>timesSeen := k\<rparr>) = stackTrace m) \<longrightarrow>
        toJSON stackTrace m
          = toJSON stackTrace (m\<lparr>timesSeen := 1\<rparr>)
              @ (if timesSeen m > 1
                 then [CHR 0x0A] @ ''  (duplicated '' @ toStringRadix 10 (timesSeen m)
                      @ '' times (possibly non-consecutively); use ?debug=1 to show all)''
                 else []))"
proof -
  let ?M = "newLogMessageWithStack nm ex"
  have sig: "sameSignature x ?M \<longleftrightarrow> name x = nm \<and> message x = message ex \<and> stack x = stack ex"
    for x
    by (simp add: sameSignature_def newLogMessageWithStack_def)
  have a: "timesSeen ?M = 1"
    by (simp add: newLogMessageWithStack_def)
  have b: "timesSeen (incrementTimesSeen m) = timesSeen m + 1"
    by (simp add: incrementTimesSeen_def)
  have c: "logs (((logImpl lvl nm ex) ^^ Suc n) r)
          = [\<lparr>exnClass = Error, message = message ex, stack = stack ex, name = nm,
              stackHiddenMessage = None, timesSeen = Suc n\<rparr>]" if "logs r = []"
    using that pushDeduplicated_repeat [OF a, where n = n]
      logs_logImpl_funpow [where n = "Suc n" and r = r and lvl = lvl and nm = nm and ex = ex]
    by (simp add: newLogMessageWithStack_def)
  have d: "logs (logImpl lvl nm ex r) = xs @ l\<lparr>timesSeen := timesSeen l + 1\<rparr> # ys"
    if "logs r = xs @ l # ys" "name l = nm \<and> message l = message ex \<and> stack l = stack ex"
       "\<forall>x \<in> set xs. \<not> (name x = nm \<and> message x = message ex \<and> stack x = stack ex)"
  proof -
    from that(3) have "\<forall>x \<in> set xs. \<not> sameSignature x ?M" by (simp add: sig)
    moreover from that(2) have "sameSignature l ?M" by (simp add: sig)
    ultimately have "pushDeduplicated ?M (xs @ l # ys) = xs @ incrementTimesSeen l # ys"
      by (rule pushDeduplicated_first)
    then show ?thesis by (simp add: logs_logImpl that(1) incrementTimesSeen_def)
  qed
  have e: "logs (logImpl lvl nm ex r)
            = logs r @ [\<lparr>exnClass = Error, message = message ex, stack = stack ex, name = nm,
                         stackHiddenMessage = None, timesSeen = 1\<rparr>]"
    if "\<forall>x \<in> set (logs r). \<not> (name x = nm \<and> message x = message ex \<and> stack x = stack ex)"
  proof -
    from that have "\<forall>x \<in> set (logs r). \<not> sameSignature x ?M" by (simp add: sig)
    then have "pushDeduplicated ?M (logs r) = logs r @ [?M]"
      by (rule pushDeduplicated_unseen)
    then show ?thesis by (simp add: logs_logImpl newLogMessageWithStack_def)
  qed
  have f: "toJSON stackTrace m
          = toJSON stackTrace (m\<lparr>timesSeen := 1\<rparr>)
              @ (if timesSeen m > 1
                 then [CHR 0x0A] @ ''  (duplicated '' @ toStringRadix 10 (timesSeen m)
                      @ '' times (possibly non-consecutively); use ?debug=1 to show all)''
                 else [])"
    if "\<forall>k. stackTrace (m\<lparr>timesSeen := k\<rparr>) = stackTrace m"
    using that by (simp add: toJSON_def Let_def newline_def)
  from a b c d e f show ?thesis by blast
qed

text \<open>
  A failure logged 100 times into a fresh recorder and its rendering; the same failure
  logged into a log where it is the second of three messages.
\<close>

theorem timesSeen_counts_duplicates_witness:
  "logs (((logImpl SeverityFail ''EXCEPTION'' (mkExn Error ''content mismatch'')) ^^ 100)
      newTestCaseRecorder)
     = [\<lparr>exnClass = Error, message = ''content mismatch'', stack = None,
         name = ''EXCEPTION'', stackHiddenMessage = None, timesSeen = 100\<rparr>]
   \<and> toJSON (\<lambda>m. the (stack m))
        \<lparr>exnClass = Error, message = ''content mismatch'', stack = None,
         name = ''EXCEPTION'', stackHiddenMessage = None, timesSeen = 100\<rparr>
     = ''EXCEPTION: content mismatch'' @ [CHR 0x0A]
       @ ''  (duplicated 100 times (possibly non-consecutively); use ?debug=1 to show all)''
   \<and> logs (logImpl SeverityFail ''EXCEPTION'' (mkExn Error ''content mismatch'')
        (newTestCaseRecorder\<lparr>logs :=
           [\<lparr>exnClass = Error, message = ''subcase: i=0'', stack = None,
             name = ''INFO'', stackHiddenMessage = None, timesSeen = 1\<rparr>,
            \<lparr>exnClass = Error, message = ''content mismatch'', stack = None,
             name = ''EXCEPTION'', stackHiddenMessage = None, timesSeen = 3\<rparr>,
            \<lparr>exnClass = Error, message = ''content mismatch'', stack = None,
             name = ''EXCEPTION'', stackHiddenMessage = None, timesSeen = 1\<rparr>]\<rparr>))
     = [\<lparr>exnClass = Error, message = ''subcase: i=0'', stack = None,
         name = ''INFO'', stackHiddenMessage = None, timesSeen = 1\<rparr>,
        \<lparr>exnClass = Error, message = ''content mismatch'', stack = None,
         name = ''EXCEPTION'', stackHiddenMessage = None, timesSeen = 4\<rparr>,
        \<lparr>exnClass = Error, message = ''content mismatch'', stack = None,
         name = ''EXCEPTION'', stackHiddenMessage = None, timesSeen = 1\<rparr>]"
  using timesSeen_counts_duplicates [where r = newTestCaseRecorder and lvl = SeverityFail
      and nm = "''EXCEPTION''" and ex = "mkExn Error ''content mismatch''" and n = 99
      and stackTrace = "\<lambda>m. the (stack m)"
      and m = "\<lparr>exnClass = Error, message = ''content mismatch'', stack = None,
         name = ''EXCEPTION'', stackHiddenMessage = None, timesSeen = 100\<rparr>"]
    timesSeen_counts_duplicates [where lvl = SeverityFail
      and nm = "''EXCEPTION''" and ex = "mkExn Error ''content mismatch''" and n = 0
      and stackTrace = "\<lambda>m. the (stack m)"
      and m = "\<lparr>exnClass = Error, message = ''content mismatch'', stack = None,
         name = ''EXCEPTION'', stackHiddenMessage = None, timesSeen = 100\<rparr>"
      and r = "newTestCaseRecorder\<lparr>logs :=
           [\<lparr>exnClass = Error, message = ''subcase: i=0'', stack = None,
             name = ''INFO'', stackHiddenMessage = None, timesSeen = 1\<rparr>,
            \<lparr>exnClass = Error, message = ''content mismatch'', stack = None,
             name = ''EXCEPTION'', stackHiddenMessage = None, timesSeen = 3\<rparr>,
            \<lparr>exnClass = Error, message = ''content mismatch'', stack = None,
             name = ''EXCEPTION'', stackHiddenMessage = None, timesSeen = 1\<rparr>]\<rparr>"
      and xs = "[\<lparr>exnClass = Error, message = ''subcase: i=0'', stack = None,
             name = ''INFO'', stackHiddenMessage = None, timesSeen = 1\<rparr>]"
      and l = "\<lparr>exnClass = Error, message = ''content mismatch'', stack = None,
             name = ''EXCEPTION'', stackHiddenMessage = None, timesSeen = 3\<rparr>"
      and ys = "[\<lparr>exnClass = Error, message = ''content mismatch'', stack = None,
             name = ''EXCEPTION'', stackHiddenMessage = None, timesSeen = 1\<rparr>]"]
  by (simp add: newTestCaseRecorder_def newLogMessageWithStack_def mkExn_def toJSON_def truthy_def
      Let_def newline_def digitChar_def toStringRadix.simps)
section \<open>Test groups and test builders: results\<close>

lemma entriesOk_Nil: "entriesOk I [] sn"
  by (simp add: entriesOk_def)

lemma entriesOk_Cons:
  "entriesOk I (e # es) sn \<longleftrightarrow>
     (\<exists>str. entryUnique I e = Inr str \<and> str \<notin> sn \<and> entriesOk I es (insert str sn))"
  by (auto simp add: entriesOk_def image_iff) metis+

lemma entriesOk_append:
  "entriesOk I (es @ fs) sn \<longleftrightarrow> entriesOk I es sn \<and> entriesOk I fs (sn \<union> entryStrings I es)"
proof (induction es arbitrary: sn)
  case Nil
  show ?case by (simp add: entriesOk_Nil entryStrings_def)
next
  case (Cons e es)
  have *: "insert str sn \<union> entryStrings I es = sn \<union> entryStrings I (e # es)"
    if "entryUnique I e = Inr str" for str
    using that by (auto simp add: entryStrings_def)
  show ?case
    using Cons.IH * by (auto simp add: entriesOk_Cons)
qed

lemma entryStrings_append:
  "entryStrings I (es @ fs) = entryStrings I es \<union> entryStrings I fs"
  by (auto simp add: entryStrings_def)

lemma validate_subcases_char:
  "(entriesOk I (map (Pair c) subs) sn \<longrightarrow>
      validate_subcases I tps c subs sn = Inr (sn \<union> entryStrings I (map (Pair c) subs)))
   \<and> (\<not> entriesOk I (map (Pair c) subs) sn \<longrightarrow>
      (\<exists>ex. validate_subcases I tps c subs sn = Inl ex))"
proof (induction subs arbitrary: sn)
  case Nil
  show ?case by (simp add: entriesOk_Nil entryStrings_def)
next
  case (Cons s subs)
  show ?case
  proof (cases "entryUnique I (c, s)")
    case (Inl ex)
    then have "\<not> entriesOk I (map (Pair c) (s # subs)) sn"
      by (simp add: entriesOk_Cons)
    moreover from Inl have "\<exists>ex. validate_subcases I tps c (s # subs) sn = Inl ex"
      by (auto simp add: entryUnique_def split: sum.splits)
    ultimately show ?thesis by simp
  next
    case (Inr str)
    then obtain ps tcs where m: "mergeParams I c s = Inr ps" "stringifyPublicParams I ps = Inr tcs"
        "stringifyPublicParamsUniquely I ps = Inr str"
      by (auto simp add: entryUnique_def split: sum.splits)
    have es: "insert str sn \<union> entryStrings I (map (Pair c) subs)
        = sn \<union> entryStrings I (map (Pair c) (s # subs))"
      using Inr by (auto simp add: entryStrings_def)
    show ?thesis
    proof (cases "str \<in> sn")
      case True
      with Inr m show ?thesis by (simp add: entriesOk_Cons)
    next
      case False
      with Inr m Cons.IH [of "insert str sn"] es show ?thesis
        by (simp add: entriesOk_Cons)
    qed
  qed
qed

lemma expandCases_Cons:
  "expandCases I ((c, subs) # rest) = map (Pair c) (subcasesOrUnit I subs) @ expandCases I rest"
  by (simp add: expandCases_def)

lemma validate_cases_char:
  "(entriesOk I (expandCases I cases) sn \<longrightarrow>
      validate_cases I tps cases sn = Inr (sn \<union> entryStrings I (expandCases I cases)))
   \<and> (\<not> entriesOk I (expandCases I cases) sn \<longrightarrow>
      (\<exists>ex. validate_cases I tps cases sn = Inl ex))"
proof (induction cases arbitrary: sn)
  case Nil
  show ?case by (simp add: expandCases_def entriesOk_Nil entryStrings_def)
next
  case (Cons cs cases)
  obtain c subs where cs: "cs = (c, subs)" by (cases cs)
  let ?head = "map (Pair c) (subcasesOrUnit I subs)"
  show ?case
  proof (cases "entriesOk I ?head sn")
    case True
    then have v: "validate_subcases I tps c (subcasesOrUnit I subs) sn = Inr (sn \<union> entryStrings I ?head)"
      using validate_subcases_char [of I c "subcasesOrUnit I subs" sn tps] by simp
    show ?thesis
      using True v Cons.IH [of "sn \<union> entryStrings I ?head"]
      by (auto simp add: cs expandCases_Cons entriesOk_append entryStrings_append Un_assoc)
  next
    case False
    then obtain ex where "validate_subcases I tps c (subcasesOrUnit I subs) sn = Inl ex"
      using validate_subcases_char [of I c "subcasesOrUnit I subs" sn tps] by auto
    with False show ?thesis
      by (simp add: cs expandCases_Cons entriesOk_append)
  qed
qed

text \<open>
  C7 (amended). For every \<open>TestBuilder\<close> with a parameterization, \<open>validate()\<close>
  succeeds if and only if a test function is attached, merging and stringifying the
  parameters of every entry of the fully expanded case \<open>\<times>\<close> subcase list succeeds,
  and no two entries have equal unique public-parameter stringification. In every case
  it leaves the builder as it was.
\<close>

theorem validate_succeeds_iff:
  assumes "testCases this = Some cases"
  shows "(fst (validate Q I this) = None \<longleftrightarrow>
            testFn this \<noteq> None
            \<and> (\<forall>e \<in> set (expandCases I cases). \<exists>str. entryUnique I e = Inr str)
            \<and> distinct (map (entryUnique I) (expandCases I cases)))
         \<and> snd (validate Q I this) = this"
proof -
  have ok: "entriesOk I (expandCases I cases) {} \<longleftrightarrow>
      (\<forall>e \<in> set (expandCases I cases). \<exists>str. entryUnique I e = Inr str)
            \<and> distinct (map (entryUnique I) (expandCases I cases))"
    by (simp add: entriesOk_def)
  show ?thesis
  proof (cases "testFn this = None")
    case True
    then show ?thesis by (simp add: validate_def Let_def)
  next
    case False
    show ?thesis
    proof (cases "entriesOk I (expandCases I cases) {}")
      case True
      then have "validate_cases I (join [kPathSeparator Q] (testPath this)) cases {}
          = Inr ({} \<union> entryStrings I (expandCases I cases))"
        using validate_cases_char [of I cases "{}"] by blast
      with True False assms ok show ?thesis
        by (simp add: validate_def Let_def)
    next
      case nok: False
      then obtain ex where "validate_cases I (join [kPathSeparator Q] (testPath this)) cases {} = Inl ex"
        using validate_cases_char [of I cases "{}"] by blast
      with nok False assms ok show ?thesis
        by (simp add: validate_def Let_def)
    qed
  qed
qed

text \<open>
  C7 (as stated, refuted). A parameterized builder with a single case and no test
  function: the expanded list has one entry, so no two entries collide, yet
  \<open>validate()\<close> fails.
\<close>

theorem validate_fails_without_fn:
  "fst (validate exampleSyntax Imports_spec (exampleBuilder None (Some [([(''x'', ''1'')], None)])))
     = Some (mkExn Error ''Test is missing .fn(): t'')
   \<and> map (entryUnique Imports_spec) (expandCases Imports_spec [([(''x'', ''1'')], None)])
       = [Inr ''x=1'']"
  by (simp add: validate_def exampleSyntax_def exampleBuilder_def newTestBuilder_def Let_def
      mkExn_def truthy_def expandCases_def subcasesOrUnit_def entryUnique_def Imports_spec_def
      mergeParams_spec_def)

theorem validate_succeeds_iff_witness:
  "fst (validate exampleSyntax Imports_spec
      (exampleBuilder (Some exampleFn)
        (Some [([(''x'', ''1'')], Some [[(''y'', ''a'')], [(''y'', ''b'')]]),
               ([(''x'', ''2'')], None)]))) = None
   \<and> fst (validate exampleSyntax Imports_spec
      (exampleBuilder (Some exampleFn)
        (Some [([(''x'', ''1'')], Some [[(''y'', ''a'')], [(''y'', ''a'')]])]))) \<noteq> None"
  using validate_succeeds_iff [where this = "exampleBuilder (Some exampleFn)
        (Some [([(''x'', ''1'')], Some [[(''y'', ''a'')], [(''y'', ''b'')]]),
               ([(''x'', ''2'')], None)])" and Q = exampleSyntax and I = Imports_spec
      and cases = "[([(''x'', ''1'')], Some [[(''y'', ''a'')], [(''y'', ''b'')]]),
               ([(''x'', ''2'')], None)]"]
    validate_succeeds_iff [where this = "exampleBuilder (Some exampleFn)
        (Some [([(''x'', ''1'')], Some [[(''y'', ''a'')], [(''y'', ''a'')]])])"
      and Q = exampleSyntax and I = Imports_spec
      and cases = "[([(''x'', ''1'')], Some [[(''y'', ''a'')], [(''y'', ''a'')]])]"]
  by (simp add: exampleBuilder_def newTestBuilder_def expandCases_def subcasesOrUnit_def
      entryUnique_def Imports_spec_def mergeParams_spec_def)

lemma checkParts_None: "checkParts Q ps = None \<longleftrightarrow> (\<forall>p \<in> set ps. validQueryPart_test Q p)"
  by (induction ps) auto

text \<open>
  C8. For every \<open>TestGroup\<close>, \<open>test(name)\<close> fails exactly when the name is not
  what \<open>decodeURIComponent\<close> returns for it, or it is already in \<open>seen\<close>, or some
  part of it between separators fails \<open>validQueryPart\<close>; otherwise a new builder
  for the parts is appended to \<open>tests\<close> and returned, and the name is added to
  \<open>seen\<close>.
\<close>

theorem test_fails_iff:
  "(isl (fst (test Q this nm)) \<longleftrightarrow>
      decodeURIComponent Q nm \<noteq> Inr nm
      \<or> nm \<in> seen this
      \<or> (\<exists>p \<in> set (split (kPathSeparator Q) nm). \<not> validQueryPart_test Q p))
   \<and> (\<not> isl (fst (test Q this nm)) \<longrightarrow>
        fst (test Q this nm)
          = Inr (newTestBuilder (split (kPathSeparator Q) nm) (group_fixture this)
                  (mkExn Error (''Test created: '' @ nm)))
        \<and> tests (snd (test Q this nm))
          = tests this @ [newTestBuilder (split (kPathSeparator Q) nm) (group_fixture this)
                  (mkExn Error (''Test created: '' @ nm))]
        \<and> seen (snd (test Q this nm)) = insert nm (seen this)
        \<and> group_fixture (snd (test Q this nm)) = group_fixture this)"
proof (cases "decodeURIComponent Q nm")
  case (Inl ex)
  then show ?thesis
    by (simp add: test_def checkName_def Let_def)
next
  case (Inr decoded)
  show ?thesis
  proof (cases "nm = decoded \<and> nm \<notin> seen this")
    case False
    with Inr show ?thesis
      by (auto simp add: test_def checkName_def Let_def)
  next
    case True
    then have eq: "decoded = nm" and ns: "nm \<notin> seen this" by auto
    from Inr have cn: "checkName Q this nm = (None, this\<lparr>seen := insert nm (seen this)\<rparr>)"
      unfolding eq using ns by (simp add: checkName_def)
    show ?thesis
    proof (cases "checkParts Q (split (kPathSeparator Q) nm)")
      case None
      with cn ns Inr show ?thesis
        unfolding eq using checkParts_None [of Q "split (kPathSeparator Q) nm"]
        by (simp add: test_def Let_def)
    next
      case (Some ex)
      with cn ns Inr show ?thesis
        unfolding eq using checkParts_None [of Q "split (kPathSeparator Q) nm"]
        by (simp add: test_def Let_def)
    qed
  qed
qed

theorem test_fails_iff_witness:
  "isl (fst (test exampleSyntax exampleGroup ''a,b''))
   \<and> isl (fst (test exampleSyntax exampleGroup ''a%2Cb''))
   \<and> isl (fst (test exampleSyntax exampleGroup ''a,b c''))
   \<and> seen (snd (test exampleSyntax exampleGroup ''a,c'')) = {''a,c'', ''a,b''}
   \<and> map testPath (tests (snd (test exampleSyntax exampleGroup ''a,c''))) = [[''a'', ''c'']]"
  using test_fails_iff [of exampleSyntax exampleGroup "''a,b''"]
    test_fails_iff [of exampleSyntax exampleGroup "''a%2Cb''"]
    test_fails_iff [of exampleSyntax exampleGroup "''a,b c''"]
    test_fails_iff [of exampleSyntax exampleGroup "''a,c''"]
  by (simp add: exampleSyntax_def exampleGroup_def newTestBuilder_def)

section \<open>Checking array contents: results\<close>


































end
